theory Spec2Isabelle
  imports Main
begin

section \<open>The Bolt-backed authentication store\<close>

text \<open>
  \<^verbatim>\<open>authentication/backends/storage_backend.go\<close>. The store holds a Bolt database handle
  and two bucket names. The database is modelled by the content of its buckets: a map from
  bucket name and key to the stored bytes.
\<close>

type_synonym bytes = string

record BoltAuth =
  DS :: "bytes \<times> bytes \<rightharpoonup> bytes"
  TokenBucket :: bytes
  UserBucket :: bytes

text \<open>
  \<^verbatim>\<open>func (b *BoltAuth) Delete(key []byte) error { return b.Delete(key) }\<close>

  The body is a single call of the method itself on the same receiver with the same key. A
  call that does not return has the value \<open>None\<close>; a call that returned would yield
  the error value (\<open>None\<close> for Go's \<open>nil\<close>) and the database it leaves behind.
\<close>

partial_function (option) Delete :: "BoltAuth \<Rightarrow> bytes \<Rightarrow> (string option \<times> BoltAuth) option" where
  "Delete b key = Delete b key"

text \<open>
  The same method with a bound on the depth of the call stack: \<open>Delete_depth n b key\<close> runs
  the body with room for \<open>n\<close> nested calls and reports the database as it stands when
  the room is used up, together with the result if the outermost call returned.
\<close>

fun Delete_depth :: "nat \<Rightarrow> BoltAuth \<Rightarrow> bytes \<Rightarrow> BoltAuth \<times> string option option" where
  "Delete_depth 0 b key = (b, None)"
| "Delete_depth (Suc n) b key = Delete_depth n b key"

section \<open>Go values used by the simulation store\<close>

text \<open>
  Go's \<open>int\<close> is a 64-bit two's-complement integer on the platforms Hoverfly is built for.
  It is modelled as a mathematical integer with the wrap-around of an addition written out.
\<close>

type_synonym go_int = int

definition wrap64 :: "int \<Rightarrow> go_int" where
  "wrap64 x = ((x + 2 ^ 63) mod 2 ^ 64) - 2 ^ 63"

text \<open>
  \<open>strconv.Itoa\<close>: the decimal rendering, with a leading minus sign for a negative number.
\<close>

definition digit_char :: "nat \<Rightarrow> char" where
  "digit_char d = char_of (48 + d)"

function nat_decimal :: "nat \<Rightarrow> string" where
  "nat_decimal n = (if n < 10 then [digit_char n] else nat_decimal (n div 10) @ [digit_char (n mod 10)])"
  by pat_completeness auto
termination
  by (relation "measure id") auto

declare nat_decimal.simps [simp del]

definition Itoa :: "go_int \<Rightarrow> string" where
  "Itoa i = (if i < 0 then CHR ''-'' # nat_decimal (nat (- i)) else nat_decimal (nat i))"

text \<open>
  \<open>strconv.Atoi\<close>, of which the source keeps the number and drops the error: an optional
  sign followed by decimal digits. A string that is not of that form yields 0; a number
  outside the 64-bit range yields the nearest representable number.
\<close>

definition is_digit :: "char \<Rightarrow> bool" where
  "is_digit c = (48 \<le> (of_char c :: nat) \<and> (of_char c :: nat) \<le> 57)"

definition digits_value :: "string \<Rightarrow> int" where
  "digits_value s = foldl (\<lambda>acc c. acc * 10 + ((of_char c :: int) - 48)) 0 s"

definition Atoi :: "string \<Rightarrow> go_int" where
  "Atoi s =
     (let neg = (s \<noteq> [] \<and> hd s = CHR ''-'');
          ds = (if s \<noteq> [] \<and> (hd s = CHR ''-'' \<or> hd s = CHR ''+'') then tl s else s)
      in if ds = [] \<or> \<not> list_all is_digit ds then 0
         else if neg then (if digits_value ds > 2 ^ 63 then - (2 ^ 63) else - digits_value ds)
         else (if digits_value ds \<ge> 2 ^ 63 then 2 ^ 63 - 1 else digits_value ds))"

text \<open>Run-time panics of the Go code that the models make explicit.\<close>

datatype go_panic = AssignmentToNilMap | IndexOutOfRange | NilMode

text \<open>
  A Go map is \<open>nil\<close> or a table; reading a \<open>nil\<close> map behaves like reading an empty one,
  and reading a missing key of a \<open>map[string]string\<close> yields the empty string.
  \<open>reflect.DeepEqual\<close> tells a \<open>nil\<close> map from an empty one, so the two are kept apart
  as \<open>None\<close> and \<open>Some Map.empty\<close>.
\<close>

definition map_or_empty :: "('k \<rightharpoonup> 'v) option \<Rightarrow> ('k \<rightharpoonup> 'v)" where
  "map_or_empty m = (case m of None \<Rightarrow> Map.empty | Some f \<Rightarrow> f)"

definition map_index :: "(string \<rightharpoonup> string) \<Rightarrow> string \<Rightarrow> string" where
  "map_index m k = (case m k of None \<Rightarrow> [] | Some v \<Rightarrow> v)"

section \<open>The simulation store\<close>

text \<open>
  \<^verbatim>\<open>core/models/simulation.go\<close>. The declarations of \<open>RequestMatcherResponsePair\<close>,
  \<open>RequestMatcher\<close> and \<open>ResponseDetails\<close> are not among the sources. The store reads
  and writes \<open>RequestMatcher.RequiresState\<close> and \<open>Response.TransitionsState\<close> and
  otherwise compares request matchers as a whole, so the remaining fields of a request
  matcher (its field matchers for path, method, destination, scheme, query, body and
  headers) are one component \<open>Fields\<close> of an arbitrary type. The fields of
  \<open>ResponseDetails\<close> are those the tests of the repository read.

  Go maps are references. These records hold the maps by value, which is what
  \<open>reflect.DeepEqual\<close> compares and what a reader of a pair sees; \<open>AddPair\<close> writes
  into no map. \<open>AddPairInSequence\<close> does, and is modelled over a store further down.
\<close>

record ResponseDetails =
  Status :: int
  Body :: string
  EncodedBody :: bool
  Templated :: bool
  Headers :: "(string \<rightharpoonup> string list) option"
  TransitionsState :: "(string \<rightharpoonup> string) option"

record 'f RequestMatcher =
  Fields :: 'f
  RequiresState :: "(string \<rightharpoonup> string) option"

record 'f RequestMatcherResponsePair =
  RequestMatcher :: "'f RequestMatcher"
  Response :: ResponseDetails

record ResponseDelay =
  UrlPattern :: string
  HttpMethod :: string
  Delay :: nat

record 'f Simulation =
  matchingPairs :: "'f RequestMatcherResponsePair list"
  ResponseDelays :: "ResponseDelay list"

definition NewSimulation :: "'f Simulation" where
  "NewSimulation = \<lparr>matchingPairs = [], ResponseDelays = []\<rparr>"

text \<open>
  \<open>AddPair\<close>: the loop sets \<open>duplicate\<close> for each saved pair in turn and leaves at the
  first one whose request matcher is deeply equal to the new pair's; the pair is appended
  when the loop ends with \<open>duplicate\<close> false.
\<close>

fun AddPair_duplicate :: "'f RequestMatcherResponsePair \<Rightarrow> 'f RequestMatcherResponsePair list \<Rightarrow> bool" where
  "AddPair_duplicate pair [] = False"
| "AddPair_duplicate pair (savedPair # rest) =
     (if RequestMatcher pair = RequestMatcher savedPair then True else AddPair_duplicate pair rest)"

definition AddPair :: "'f Simulation \<Rightarrow> 'f RequestMatcherResponsePair \<Rightarrow> 'f Simulation" where
  "AddPair this pair =
     (if \<not> AddPair_duplicate pair (matchingPairs this)
      then this\<lparr>matchingPairs := matchingPairs this @ [pair]\<rparr>
      else this)"

section \<open>Maps in memory\<close>

text \<open>
  A Go map value is a reference: copying a struct that holds a map copies the reference,
  and a write through one copy is seen through every other. \<open>AddPairInSequence\<close> writes
  into the maps of the saved pairs, of the new pair and of the state, so for it the maps
  lie in a store: an address is a natural number, \<open>cells\<close> gives the table at every
  address, and the addresses from \<open>next_addr\<close> on are not in use. \<open>make_map\<close> is the
  allocation of an empty map, \<open>map[string]string{}\<close>, and \<open>map_assign\<close> the assignment
  \<open>m[k] = v\<close> through a reference.
\<close>

type_synonym addr = nat

record heap =
  cells :: "addr \<Rightarrow> (string \<rightharpoonup> string)"
  next_addr :: addr

definition make_map :: "heap \<Rightarrow> addr \<times> heap" where
  "make_map h =
     (next_addr h, h\<lparr>cells := (cells h)(next_addr h := Map.empty), next_addr := Suc (next_addr h)\<rparr>)"

definition map_assign :: "heap \<Rightarrow> addr \<Rightarrow> string \<Rightarrow> string \<Rightarrow> heap" where
  "map_assign h a k v = h\<lparr>cells := (cells h)(a := (cells h a)(k \<mapsto> v))\<rparr>"

text \<open>
  \<open>if m == nil { m = map[string]string{} }\<close>: the reference the field holds afterwards, and
  the store.
\<close>

definition map_or_make :: "addr option \<Rightarrow> heap \<Rightarrow> addr \<times> heap" where
  "map_or_make m h = (case m of None \<Rightarrow> make_map h | Some a \<Rightarrow> (a, h))"

text \<open>
  A pair as it lies in memory: the fields of its request matcher other than
  \<open>RequiresState\<close>, the reference that \<open>RequestMatcher.RequiresState\<close> holds (\<open>None\<close> for
  \<open>nil\<close>), the response, and the reference that \<open>Response.TransitionsState\<close> holds. The
  field \<open>TransitionsState\<close> inside \<open>Response_mem\<close> is not read: the map of the response
  is the one behind \<open>TransitionsState_mem\<close>. \<open>read_pair\<close> is the pair as the records
  above have it, with the maps read from the store.
\<close>

record 'f RequestMatcherResponsePair_mem =
  Fields_mem :: 'f
  RequiresState_mem :: "addr option"
  Response_mem :: ResponseDetails
  TransitionsState_mem :: "addr option"

record 'f Simulation_mem =
  matchingPairs_mem :: "'f RequestMatcherResponsePair_mem list"
  ResponseDelays_mem :: "ResponseDelay list"

definition read_pair :: "heap \<Rightarrow> 'f RequestMatcherResponsePair_mem \<Rightarrow> 'f RequestMatcherResponsePair" where
  "read_pair h p =
     \<lparr>RequestMatcher = \<lparr>Fields = Fields_mem p, RequiresState = map_option (cells h) (RequiresState_mem p)\<rparr>,
      Response = (Response_mem p)\<lparr>TransitionsState := map_option (cells h) (TransitionsState_mem p)\<rparr>\<rparr>"

text \<open>\<open>state.State\<close>: a struct around the reference to the map of the current state.\<close>

record State =
  State :: "addr option"

section \<open>AddPairInSequence\<close>

text \<open>
  \<open>AddPairInSequence\<close>. The comparison of the loop is made on copies of the two request
  matchers whose \<open>RequiresState\<close> is set to \<open>nil\<close>: it compares the remaining fields.

  The variables the loop changes: the new pair behind the pointer (a \<open>nil\<close> map of its
  request matcher is replaced by a new one), \<open>counter\<close>, the table \<open>updates\<close> from index
  to rewritten pair, and the store. One round of the loop, for the saved pair at index
  \<open>i\<close>, which is a copy of the slice's element: the maps the copy lacks are allocated,
  \<open>sequence\<close> is read from the map of its request matcher, and the three assignments go
  through the references, in the order of the source. Writing \<open>state.State["sequence"]\<close>
  panics when the map of the state is \<open>nil\<close>. \<open>counter\<close> counts pairs of a slice and
  cannot overflow. The pointers \<open>pair\<close> and \<open>state\<close> are taken not to be \<open>nil\<close>, and
  \<open>pair\<close> not to point into the slice.
\<close>

type_synonym 'f sequence_loop_state =
  "'f RequestMatcherResponsePair_mem \<times> go_int \<times> (nat \<rightharpoonup> 'f RequestMatcherResponsePair_mem) \<times> heap"

definition AddPairInSequence_body ::
  "State \<Rightarrow> nat \<Rightarrow> 'f RequestMatcherResponsePair_mem \<Rightarrow> 'f sequence_loop_state \<Rightarrow>
     go_panic + 'f sequence_loop_state" where
  "AddPairInSequence_body state i savedPair s =
     (case s of (pair, counter, updates, h) \<Rightarrow>
        if Fields_mem pair = Fields_mem savedPair then
          (let counter = counter + 1;
               (savedRequires, h) = map_or_make (RequiresState_mem savedPair) h;
               savedPair = savedPair\<lparr>RequiresState_mem := Some savedRequires\<rparr>;
               (savedTransitions, h) = map_or_make (TransitionsState_mem savedPair) h;
               savedPair = savedPair\<lparr>TransitionsState_mem := Some savedTransitions\<rparr>;
               (pairRequires, h) = map_or_make (RequiresState_mem pair) h;
               pair = pair\<lparr>RequiresState_mem := Some pairRequires\<rparr>;
               sequenceState = map_index (cells h savedRequires) ''sequence''
           in if sequenceState = '''' then
                (case State state of
                   None \<Rightarrow> Inl AssignmentToNilMap
                 | Some stateMap \<Rightarrow>
                     (let h = map_assign h stateMap ''sequence'' ''1'';
                          h = map_assign h savedRequires ''sequence'' ''1'';
                          h = map_assign h savedTransitions ''sequence'' ''2''
                      in Inr (pair, counter, updates(i \<mapsto> savedPair), h)))
              else
                (let nextSequenceState = Itoa (wrap64 (Atoi sequenceState + 1));
                     h = map_assign h savedRequires ''sequence'' sequenceState;
                     h = map_assign h savedTransitions ''sequence'' nextSequenceState
                 in Inr (pair, counter, updates(i \<mapsto> savedPair), h)))
        else Inr (pair, counter, updates, h))"

fun AddPairInSequence_loop ::
  "State \<Rightarrow> (nat \<times> 'f RequestMatcherResponsePair_mem) list \<Rightarrow> 'f sequence_loop_state \<Rightarrow>
     go_panic + 'f sequence_loop_state" where
  "AddPairInSequence_loop state [] s = Inr s"
| "AddPairInSequence_loop state ((i, savedPair) # rest) s =
     (case AddPairInSequence_body state i savedPair s of
        Inl p \<Rightarrow> Inl p
      | Inr s' \<Rightarrow> AddPairInSequence_loop state rest s')"

text \<open>The second loop stores every entry of \<open>updates\<close> at its index.\<close>

definition apply_updates ::
  "(nat \<rightharpoonup> 'a) \<Rightarrow> 'a list \<Rightarrow> 'a list" where
  "apply_updates updates xs =
     map (\<lambda>(i, x). case updates i of None \<Rightarrow> x | Some u \<Rightarrow> u) (enumerate 0 xs)"

text \<open>
  The method changes the simulation, the pair behind the pointer and the maps; the model
  returns the simulation, the pair and the store. After a round of the loop that found a
  duplicate the new pair has a map, so the assignment after the loops cannot meet a \<open>nil\<close>
  map; the model has the panic all the same. The line the method prints to standard output
  is left out.
\<close>

definition AddPairInSequence ::
  "'f Simulation_mem \<Rightarrow> 'f RequestMatcherResponsePair_mem \<Rightarrow> State \<Rightarrow> heap \<Rightarrow>
     go_panic + ('f Simulation_mem \<times> 'f RequestMatcherResponsePair_mem \<times> heap)" where
  "AddPairInSequence this pair state h =
     (case AddPairInSequence_loop state (enumerate 0 (matchingPairs_mem this)) (pair, 0, Map.empty, h) of
        Inl p \<Rightarrow> Inl p
      | Inr (pair, counter, updates, h) \<Rightarrow>
          (let pairs = apply_updates updates (matchingPairs_mem this)
           in if counter \<noteq> 0 then
                (case RequiresState_mem pair of
                   None \<Rightarrow> Inl AssignmentToNilMap
                 | Some pairRequires \<Rightarrow>
                     Inr (this\<lparr>matchingPairs_mem := pairs @ [pair]\<rparr>, pair,
                          map_assign h pairRequires ''sequence'' (Itoa (counter + 1))))
              else Inr (this\<lparr>matchingPairs_mem := pairs @ [pair]\<rparr>, pair, h)))"

text \<open>A caller inserting a list of pairs one after the other, stopping at a panic.\<close>

fun AddPairsInSequence ::
  "'f Simulation_mem \<Rightarrow> State \<Rightarrow> heap \<Rightarrow> 'f RequestMatcherResponsePair_mem list \<Rightarrow>
     go_panic + ('f Simulation_mem \<times> heap)" where
  "AddPairsInSequence this state h [] = Inr (this, h)"
| "AddPairsInSequence this state h (pair # pairs) =
     (case AddPairInSequence this pair state h of
        Inl p \<Rightarrow> Inl p
      | Inr (this', _, h') \<Rightarrow> AddPairsInSequence this' state h' pairs)"

text \<open>
  The pairs the simulation holds, with their maps read from the store.
\<close>

definition read_pairs :: "heap \<Rightarrow> 'f Simulation_mem \<Rightarrow> 'f RequestMatcherResponsePair list" where
  "read_pairs h this = map (read_pair h) (matchingPairs_mem this)"

subsection \<open>Pairs that come without maps\<close>

text \<open>
  A pair whose request matcher and response hold no map, the way the caller hands it over.
\<close>

definition new_pair :: "'f \<Rightarrow> ResponseDetails \<Rightarrow> 'f RequestMatcherResponsePair_mem" where
  "new_pair F R = \<lparr>Fields_mem = F, RequiresState_mem = None, Response_mem = R, TransitionsState_mem = None\<rparr>"

text \<open>
  When pairs with the same fields come without maps, every map of theirs is allocated by
  \<open>AddPairInSequence\<close>, and the addresses follow from the first free address \<open>n\<close> at the
  second insertion: that insertion allocates the two maps of the first pair and the map
  of the second pair's request matcher, and each later one the map of the new pair's
  request matcher and then the map of the last saved pair's response. \<open>saved_pair\<close> is
  the pair at position \<open>i\<close> once \<open>k\<close> pairs are in: the last one has no transitions yet.
\<close>

definition requires_addr :: "addr \<Rightarrow> nat \<Rightarrow> addr" where
  "requires_addr n i = (if i = 0 then n else if i = 1 then n + 2 else n + 2 * i - 1)"

definition transitions_addr :: "addr \<Rightarrow> nat \<Rightarrow> addr" where
  "transitions_addr n i = (if i = 0 then n + 1 else n + 2 * i + 2)"

definition saved_pair :: "addr \<Rightarrow> 'f \<Rightarrow> ResponseDetails list \<Rightarrow> nat \<Rightarrow> nat \<Rightarrow> 'f RequestMatcherResponsePair_mem" where
  "saved_pair n F Rs k i =
     \<lparr>Fields_mem = F, RequiresState_mem = Some (requires_addr n i), Response_mem = Rs ! i,
      TransitionsState_mem = (if Suc i < k then Some (transitions_addr n i) else None)\<rparr>"

text \<open>
  The store once \<open>k\<close> such pairs are in: the maps of the pairs hold the sequence values,
  and the next free address is \<open>n + 2 * k - 1\<close>.
\<close>

definition sequence_heap :: "addr \<Rightarrow> nat \<Rightarrow> heap \<Rightarrow> bool" where
  "sequence_heap n k h \<longleftrightarrow>
     next_addr h = n + 2 * k - 1
     \<and> (\<forall>i<k. cells h (requires_addr n i) = [''sequence'' \<mapsto> Itoa (int i + 1)])
     \<and> (\<forall>i. Suc i < k \<longrightarrow> cells h (transitions_addr n i) = [''sequence'' \<mapsto> Itoa (int i + 2)])"

text \<open>
  The pair at position \<open>i\<close> (counted from 0) after pairs with the request matcher \<open>M\<close>
  and the responses \<open>Rs\<close> were inserted: it requires \<open>sequence = i + 1\<close>, and every pair
  but the last moves the state on to \<open>i + 2\<close>.
\<close>

definition expected_pair ::
  "'f RequestMatcher \<Rightarrow> ResponseDetails list \<Rightarrow> nat \<Rightarrow> 'f RequestMatcherResponsePair" where
  "expected_pair M Rs i =
     \<lparr>RequestMatcher = M\<lparr>RequiresState :=
         Some ((map_or_empty (RequiresState M))(''sequence'' \<mapsto> Itoa (int i + 1)))\<rparr>,
      Response =
        (if Suc i < length Rs
         then (Rs ! i)\<lparr>TransitionsState :=
                Some ((map_or_empty (TransitionsState (Rs ! i)))(''sequence'' \<mapsto> Itoa (int i + 2)))\<rparr>
         else Rs ! i)\<rparr>"

text \<open>
  The sequence as the specification words it: every pair, the last included, requires
  its position and moves the state on to the next one.
\<close>

definition claimed_sequence :: "'f RequestMatcherResponsePair list \<Rightarrow> bool" where
  "claimed_sequence qs =
     list_all (\<lambda>(i, q).
         map_index (map_or_empty (RequiresState (RequestMatcher q))) ''sequence'' = Itoa (int i + 1)
       \<and> map_index (map_or_empty (TransitionsState (Response q))) ''sequence'' = Itoa (int i + 2))
       (enumerate 0 qs)"

text \<open>Example values: a plain response and a pair without state.\<close>

definition example_response :: "string \<Rightarrow> ResponseDetails" where
  "example_response b = \<lparr>Status = 200, Body = b, EncodedBody = False, Templated = False,
     Headers = None, TransitionsState = None\<rparr>"

definition example_pair :: "string \<Rightarrow> string \<Rightarrow> string RequestMatcherResponsePair" where
  "example_pair f b = \<lparr>RequestMatcher = \<lparr>Fields = f, RequiresState = None\<rparr>, Response = example_response b\<rparr>"

text \<open>A store that holds one map, the empty map of the state at address 0.\<close>

definition example_heap :: heap where
  "example_heap = \<lparr>cells = (\<lambda>a. Map.empty), next_addr = 1\<rparr>"

section \<open>Matching against the state\<close>

text \<open>
  Modelled from the spec: the matcher that serves a request from the simulation is not among
  the sources. Section 4.3 of the specification: the pairs are walked in insertion order;
  for a pair whose matcher includes \<open>requiresState\<close>, every required key and value must be
  present in the current state; among the matching pairs the first in insertion order wins;
  and when the matched response has a \<open>transitionsState\<close> mapping, it is applied to the
  state, overwriting by key. How the fields of a matcher match a request is the parameter
  \<open>field_match\<close>.
\<close>

definition state_matches :: "(string \<rightharpoonup> string) option \<Rightarrow> (string \<rightharpoonup> string) \<Rightarrow> bool" where
  "state_matches requires st = (map_or_empty requires \<subseteq>\<^sub>m st)"

definition Match_with_state ::
  "('f \<Rightarrow> 'r \<Rightarrow> bool) \<Rightarrow> 'f RequestMatcherResponsePair list \<Rightarrow> (string \<rightharpoonup> string) \<Rightarrow> 'r \<Rightarrow>
     ('f RequestMatcherResponsePair \<times> (string \<rightharpoonup> string)) option" where
  "Match_with_state field_match pairs st req =
     (case find (\<lambda>p. field_match (Fields (RequestMatcher p)) req
                    \<and> state_matches (RequiresState (RequestMatcher p)) st) pairs of
        None \<Rightarrow> None
      | Some p \<Rightarrow> Some (p, st ++ map_or_empty (TransitionsState (Response p))))"

text \<open>
  Modelled from the spec: a run of requests served one after the other, each against the
  state the one before left; the result lists the pair that answered each request.
\<close>

fun serve ::
  "('f \<Rightarrow> 'r \<Rightarrow> bool) \<Rightarrow> 'f RequestMatcherResponsePair list \<Rightarrow> (string \<rightharpoonup> string) \<Rightarrow> 'r list \<Rightarrow>
     'f RequestMatcherResponsePair option list" where
  "serve field_match pairs st [] = []"
| "serve field_match pairs st (req # reqs) =
     (case Match_with_state field_match pairs st req of
        None \<Rightarrow> None # serve field_match pairs st reqs
      | Some (p, st') \<Rightarrow> Some p # serve field_match pairs st' reqs)"

section \<open>Go library values used by the proxy\<close>

text \<open>\<open>strings.HasPrefix\<close> and \<open>strings.Contains\<close>.\<close>

fun HasPrefix :: "string \<Rightarrow> string \<Rightarrow> bool" where
  "HasPrefix s [] = True"
| "HasPrefix [] (p # ps) = False"
| "HasPrefix (c # s) (p # ps) = (c = p \<and> HasPrefix s ps)"

fun Contains :: "string \<Rightarrow> string \<Rightarrow> bool" where
  "Contains [] substr = (substr = [])"
| "Contains (c # s) substr = (HasPrefix (c # s) substr \<or> Contains s substr)"

text \<open>
  \<open>net/http\<close>: a header is a map from names to lists of values. \<open>Header.Set\<close> and
  \<open>Header.Get\<close> first bring the name into the canonical form of
  \<open>textproto.CanonicalMIMEHeaderKey\<close>: a name with a byte that is not a token character is
  left alone; otherwise the first letter and every letter after a hyphen are made upper
  case and all other letters lower case. Indexing the map directly uses the name as given.
\<close>

type_synonym Header = "string \<rightharpoonup> string list"

definition validHeaderFieldByte :: "char \<Rightarrow> bool" where
  "validHeaderFieldByte c =
     (let n = (of_char c :: nat)
      in (48 \<le> n \<and> n \<le> 57) \<or> (65 \<le> n \<and> n \<le> 90) \<or> (97 \<le> n \<and> n \<le> 122)
         \<or> n \<in> set [33, 35, 36, 37, 38, 39, 42, 43, 45, 46, 94, 95, 96, 124, 126])"

definition canonical_byte :: "bool \<Rightarrow> char \<Rightarrow> char" where
  "canonical_byte upper c =
     (let n = (of_char c :: nat)
      in if upper \<and> 97 \<le> n \<and> n \<le> 122 then char_of (n - 32)
         else if \<not> upper \<and> 65 \<le> n \<and> n \<le> 90 then char_of (n + 32)
         else c)"

fun canonical_bytes :: "bool \<Rightarrow> string \<Rightarrow> string" where
  "canonical_bytes upper [] = []"
| "canonical_bytes upper (c # cs) =
     canonical_byte upper c # canonical_bytes (canonical_byte upper c = CHR ''-'') cs"

definition CanonicalMIMEHeaderKey :: "string \<Rightarrow> string" where
  "CanonicalMIMEHeaderKey s = (if list_all validHeaderFieldByte s then canonical_bytes True s else s)"



text \<open>
  The parts of \<open>http.Request\<close> and \<open>http.Response\<close> that the sources touch. A body is
  the bytes that reading it to the end yields. The field names carry the name of their
  struct, since \<open>Header\<close> and \<open>Body\<close> occur in both.
\<close>

record http_Request =
  RequestURI :: string
  Request_Header :: Header
  Request_Body :: string

record http_Response =
  Response_StatusCode :: int
  Response_Header :: Header
  Response_Body :: string

text \<open>
  \<open>http.Client\<close> as \<open>GetDefaultHoverflyHTTPClient\<close> fills it in. \<open>CheckRedirect\<close> is a
  function of the next request and the requests made so far that returns an error;
  \<open>Proxy\<close> is the fixed proxy address of \<open>http.ProxyURL\<close> (\<open>None\<close> for a direct
  connection).
\<close>

datatype http_error = ErrUseLastResponse | ErrOther string

record tls_Config =
  InsecureSkipVerify :: bool

record Transport =
  Proxy :: "string option"
  TLSClientConfig :: tls_Config

record Client =
  CheckRedirect :: "http_Request \<Rightarrow> http_Request list \<Rightarrow> http_error"
  Transport :: Transport

text \<open>
  \<open>crypto/tls\<close>: a client verifies the server's certificate chain and host name unless
  \<open>InsecureSkipVerify\<close> is set.
\<close>

definition verifies_upstream_certificates :: "Client \<Rightarrow> bool" where
  "verifies_upstream_certificates c = (\<not> InsecureSkipVerify (TLSClientConfig (Transport c)))"

section \<open>The Hoverfly instance\<close>

text \<open>
  \<^verbatim>\<open>src/unnamed/part_001\<close> (package \<open>hoverfly\<close>). \<open>Configuration\<close> is declared elsewhere;
  these are the fields the file reads. \<open>GetMode\<close> returns the field \<open>Mode\<close>.
\<close>

record Configuration =
  Webserver :: bool
  TLSVerification :: bool
  UpstreamProxy :: string
  ProxyPort :: string
  Mode :: string

text \<open>
  The mode names. The constants of package \<open>modes\<close> are not among the sources; the values
  are the ones the command line tests of the repository use.
\<close>

definition Simulate :: string where "Simulate = ''simulate''"
definition Capture :: string where "Capture = ''capture''"
definition Modify :: string where "Modify = ''modify''"
definition Synthesize :: string where "Synthesize = ''synthesize''"

text \<open>
  \<open>GetDefaultHoverflyHTTPClient\<close>. \<open>url.Parse\<close> is a parameter; when it fails the function
  ends the process through \<open>log.Fatalf\<close>, which is the result \<open>Inl\<close> with the message
  (the format string has no verb for the error, which Go appends as an extra argument).
\<close>

definition GetDefaultHoverflyHTTPClient ::
  "(string \<Rightarrow> string + string) \<Rightarrow> bool \<Rightarrow> string \<Rightarrow> string + Client" where
  "GetDefaultHoverflyHTTPClient url_Parse tlsVerification upstreamProxy =
     (case (if upstreamProxy = '''' then Inr None
            else (case url_Parse upstreamProxy of
                    Inl err \<Rightarrow> Inl (''Could not parse upstream proxy: %!(EXTRA string='' @ err @ '')'')
                  | Inr u \<Rightarrow> Inr (Some u))) of
        Inl fatal \<Rightarrow> Inl fatal
      | Inr proxyURL \<Rightarrow>
          Inr \<lparr>CheckRedirect = (\<lambda>req via. ErrUseLastResponse),
               Transport = \<lparr>Proxy = proxyURL,
                             TLSClientConfig = \<lparr>InsecureSkipVerify = tlsVerification\<rparr>\<rparr>\<rparr>)"

text \<open>
  The instance, with the fields the modelled functions read, and its constructor. The
  request cache stands for \<open>RequestCache\<close> and the \<open>CacheMatcher\<close> built
  on it; \<open>modeMap\<close> holds functions of the instance itself and is passed alongside it.
  \<open>'r\<close> is the type of \<open>models.RequestDetails\<close>, whose declaration is not among the sources.
\<close>

record ('f, 'r) Hoverfly =
  RequestCache :: "'r \<rightharpoonup> ResponseDetails"
  HTTP :: Client
  Cfg :: Configuration
  Hoverfly_ResponseDelays :: "ResponseDelay list"
  Simulation :: "'f Simulation"

definition NewHoverflyWithConfiguration ::
  "(string \<Rightarrow> string + string) \<Rightarrow> Configuration \<Rightarrow> string + ('f, 'r) Hoverfly" where
  "NewHoverflyWithConfiguration url_Parse cfg =
     (case GetDefaultHoverflyHTTPClient url_Parse (TLSVerification cfg) (UpstreamProxy cfg) of
        Inl fatal \<Rightarrow> Inl fatal
      | Inr client \<Rightarrow>
          Inr \<lparr>RequestCache = Map.empty, HTTP = client, Cfg = cfg,
               Hoverfly_ResponseDelays = [], Simulation = NewSimulation\<rparr>)"

text \<open>
  Modelled from the spec: \<open>matching.CacheMatcher\<close> (\<open>GetResponse\<close> and
  \<open>SaveRequestResponsePair\<close>) is not among the sources. Section 4.2 of the specification:
  the cache is looked up by the fingerprint of the request, a hit returns the cached
  response, and a matched response is cached under the fingerprint. The fingerprint is taken
  to identify the request.
\<close>

definition CacheMatcher_GetResponse :: "('r \<rightharpoonup> ResponseDetails) \<Rightarrow> 'r \<Rightarrow> string + ResponseDetails" where
  "CacheMatcher_GetResponse cache req =
     (case cache req of None \<Rightarrow> Inl ''Could not find recorded request in cache'' | Some r \<Rightarrow> Inr r)"

definition CacheMatcher_SaveRequestResponsePair ::
  "('r \<rightharpoonup> ResponseDetails) \<Rightarrow> 'r \<Rightarrow> ResponseDetails \<Rightarrow> ('r \<rightharpoonup> ResponseDetails)" where
  "CacheMatcher_SaveRequestResponsePair cache req resp = cache(req \<mapsto> resp)"

record MatchingError =
  StatusCode :: int
  Description :: string

text \<open>
  \<open>Hoverfly.GetResponse\<close>. \<open>TemplateMatcher.Match\<close> is not among the sources and is the
  parameter \<open>Match\<close>: from the request, the webserver flag and the simulation it yields an
  error or a response. The log entry of the miss is left out. The function returns the
  response or the matching error, and the instance with its cache.
\<close>

definition GetResponse ::
  "('r \<Rightarrow> bool \<Rightarrow> 'f Simulation \<Rightarrow> string + ResponseDetails) \<Rightarrow> ('f, 'r) Hoverfly \<Rightarrow> 'r \<Rightarrow>
     (MatchingError + ResponseDetails) \<times> ('f, 'r) Hoverfly" where
  "GetResponse Match hf requestDetails =
     (case CacheMatcher_GetResponse (RequestCache hf) requestDetails of
        Inr cachedResponse \<Rightarrow> (Inr cachedResponse, hf)
      | Inl cacheErr \<Rightarrow>
          (case Match requestDetails (Webserver (Cfg hf)) (Simulation hf) of
             Inl err \<Rightarrow>
               (Inl \<lparr>StatusCode = 412,
                     Description = ''Could not find recorded request, please record it first!''\<rparr>, hf)
           | Inr response \<Rightarrow>
               (Inr response,
                hf\<lparr>RequestCache :=
                     CacheMatcher_SaveRequestResponsePair (RequestCache hf) requestDetails response\<rparr>)))"

text \<open>
  The result the specification words for a miss: status 502 and a text that contains
  \<open>Could not find a match\<close>, read off whichever of the two results is returned.
\<close>

definition claimed_miss_result :: "MatchingError + ResponseDetails \<Rightarrow> bool" where
  "claimed_miss_result r =
     (case r of
        Inl e \<Rightarrow> StatusCode e = 502 \<and> Contains (Description e) ''Could not find a match''
      | Inr resp \<Rightarrow> Status resp = 502 \<and> Contains (Body resp) ''Could not find a match'')"


text \<open>
  Modelled from the spec: \<open>ResponseDelays.GetDelay\<close> is not among the sources. Section 4.4
  of the specification: the rules are walked in insertion order and the first rule that
  matches the request is selected. Whether a rule matches (its pattern against the
  request's method and URL) is the parameter \<open>matches\<close>.
\<close>

definition GetDelay ::
  "(ResponseDelay \<Rightarrow> 'r \<Rightarrow> bool) \<Rightarrow> ResponseDelay list \<Rightarrow> 'r \<Rightarrow> ResponseDelay option" where
  "GetDelay matches delays requestDetails = find (\<lambda>d. matches d requestDetails) delays"

text \<open>
  \<open>Hoverfly.processRequest\<close>. Parameters for what is not among the sources:
  \<open>NewRequestDetailsFromHttpRequest\<close>, \<open>ErrorResponse\<close>, the mode map (a mode's
  \<open>Process\<close> takes the instance, the request and its details, and returns a response, an
  optional error and the instance as it leaves it), and \<open>matches\<close> of the delay rules.
  \<open>Execute\<close> sleeps for the delay of the rule: the function returns, next to the response,
  the list of the sleeps it made, in milliseconds. Calling \<open>Process\<close> on a mode name that
  is not in the map panics.
\<close>

type_synonym ('f, 'r) Process =
  "('f, 'r) Hoverfly \<Rightarrow> http_Request \<Rightarrow> 'r \<Rightarrow> (http_Response \<times> string option) \<times> ('f, 'r) Hoverfly"

definition processRequest ::
  "(http_Request \<Rightarrow> string + 'r) \<Rightarrow> (http_Request \<Rightarrow> string \<Rightarrow> string \<Rightarrow> http_Response) \<Rightarrow>
   (string \<rightharpoonup> ('f, 'r) Process) \<Rightarrow> (ResponseDelay \<Rightarrow> 'r \<Rightarrow> bool) \<Rightarrow>
   ('f, 'r) Hoverfly \<Rightarrow> http_Request \<Rightarrow> go_panic + (http_Response \<times> nat list \<times> ('f, 'r) Hoverfly)" where
  "processRequest NewRequestDetailsFromHttpRequest ErrorResponse modeMap matches hf req =
     (case NewRequestDetailsFromHttpRequest req of
        Inl err \<Rightarrow> Inr (ErrorResponse req err ''Could not interpret HTTP request'', [], hf)
      | Inr requestDetails \<Rightarrow>
          (let mode = Mode (Cfg hf)
           in case modeMap mode of
                None \<Rightarrow> Inl NilMode
              | Some Process \<Rightarrow>
                  (case Process hf req requestDetails of
                     ((response, err), hf') \<Rightarrow>
                       if err \<noteq> None \<or> mode = Capture then Inr (response, [], hf')
                       else (case GetDelay matches (Hoverfly_ResponseDelays hf') requestDetails of
                               None \<Rightarrow> Inr (response, [], hf')
                             | Some respDelay \<Rightarrow> Inr (response, [Delay respDelay], hf')))))"



text \<open>Example values for the instance.\<close>

definition example_configuration :: "string \<Rightarrow> Configuration" where
  "example_configuration m =
     \<lparr>Webserver = False, TLSVerification = True, UpstreamProxy = '''', ProxyPort = ''8500'', Mode = m\<rparr>"

definition example_client :: Client where
  "example_client =
     \<lparr>CheckRedirect = (\<lambda>req via. ErrUseLastResponse),
      Transport = \<lparr>Proxy = None, TLSClientConfig = \<lparr>InsecureSkipVerify = True\<rparr>\<rparr>\<rparr>"

definition example_hoverfly :: "string \<Rightarrow> (string, string) Hoverfly" where
  "example_hoverfly m =
     \<lparr>RequestCache = Map.empty, HTTP = example_client, Cfg = example_configuration m,
      Hoverfly_ResponseDelays = [\<lparr>UrlPattern = ''example.com/slow'', HttpMethod = '''', Delay = 250\<rparr>,
                                 \<lparr>UrlPattern = ''example.com'', HttpMethod = '''', Delay = 100\<rparr>],
      Simulation = NewSimulation\<rparr>"

definition example_http_response :: "int \<Rightarrow> string \<Rightarrow> http_Response" where
  "example_http_response code b =
     \<lparr>Response_StatusCode = code, Response_Header = Map.empty, Response_Body = b\<rparr>"

definition example_request :: http_Request where
  "example_request = \<lparr>RequestURI = ''/pkg/net/http/'', Request_Header = Map.empty, Request_Body = ''''\<rparr>"

section \<open>The request template store\<close>

text \<open>
  \<^verbatim>\<open>core/matching/request_template_store.go\<close>. The headers of a template are a Go map,
  which \<open>headerMatch\<close> walks in an order of the run time's choosing and leaves at the first
  header that does not match: they are the list of the entries in the order of one walk,
  with pairwise different names (the empty list for a \<open>nil\<close> map). \<open>Body\<close> and \<open>Headers\<close>
  carry the name of the struct, since \<open>ResponseDetails\<close> has fields of the same names, and
  so does the response of a payload.
\<close>

record RequestTemplate =
  Path :: string
  Method :: string
  Destination :: string
  Scheme :: string
  Query :: string
  Template_Body :: string
  Template_Headers :: "(string \<times> string list) list"

record RequestTemplatePayload =
  RequestTemplate :: RequestTemplate
  Template_Response :: ResponseDetails

type_synonym RequestTemplateStore = "RequestTemplatePayload list"

text \<open>
  \<open>models.Payload\<close>, of which \<open>GetPayload\<close> fills in the response and leaves the request
  at its zero value.
\<close>

record Payload =
  Payload_Response :: ResponseDetails

text \<open>
  \<open>headerMatch\<close>: the request's headers are indexed with the template's name as it is
  written. Taking the first value of an empty list of values panics.
\<close>

fun headerMatch :: "(string \<times> string list) list \<Rightarrow> Header \<Rightarrow> go_panic + bool" where
  "headerMatch [] reqHeaders = Inr True"
| "headerMatch ((headerName, headerVal) # rest) reqHeaders =
     (case reqHeaders headerName of
        None \<Rightarrow> Inr False
      | Some reqHeaderVal \<Rightarrow>
          (case headerVal of
             [] \<Rightarrow> Inl IndexOutOfRange
           | v # _ \<Rightarrow>
               (case reqHeaderVal of
                  [] \<Rightarrow> Inl IndexOutOfRange
                | r # _ \<Rightarrow> if v = r then headerMatch rest reqHeaders else Inr False)))"

text \<open>
  \<open>GetPayload\<close>: the response of the first template whose headers match, or the error
  \<open>No match found\<close>.
\<close>

fun GetPayload :: "RequestTemplateStore \<Rightarrow> http_Request \<Rightarrow> go_panic + (string + Payload)" where
  "GetPayload [] req = Inr (Inl ''No match found'')"
| "GetPayload (entry # rest) req =
     (case headerMatch (Template_Headers (RequestTemplate entry)) (Request_Header req) of
        Inl p \<Rightarrow> Inl p
      | Inr True \<Rightarrow> Inr (Inr \<lparr>Payload_Response = Template_Response entry\<rparr>)
      | Inr False \<Rightarrow> GetPayload rest req)"

text \<open>
  Example values: a template that asks for a JSON content type, written in lower case,
  and requests that carry the header under a name of either case.
\<close>

definition example_template :: RequestTemplatePayload where
  "example_template =
     \<lparr>RequestTemplate =
        \<lparr>Path = '''', Method = '''', Destination = '''', Scheme = '''', Query = '''', Template_Body = '''',
         Template_Headers = [(''content-type'', [''application/json''])]\<rparr>,
      Template_Response = example_response ''ok''\<rparr>"

definition example_header_request :: "string \<Rightarrow> http_Request" where
  "example_header_request name =
     \<lparr>RequestURI = '''', Request_Header = [name \<mapsto> [''application/json'']], Request_Body = ''''\<rparr>"

section \<open>Schema negotiation of a simulation import\<close>

text \<open>JSON values, an object being the list of its members.\<close>

datatype json =
  JNull
| JBool bool
| JNumber int
| JString string
| JArray "json list"
| JObject "(string \<times> json) list"

definition json_member :: "(string \<times> json) list \<Rightarrow> string \<Rightarrow> json option" where
  "json_member members name = map_of members name"

definition quoted :: "string \<Rightarrow> string" where
  "quoted s = [CHR 0x22] @ s @ [CHR 0x22]"

definition missing_meta_object :: string where
  "missing_meta_object = ''Invalid JSON, missing '' @ quoted ''meta'' @ '' object''"

definition missing_schema_version :: string where
  "missing_schema_version = ''Invalid JSON, missing '' @ quoted ''meta.schemaVersion'' @ '' string''"

definition unsupported_schema_version :: "string \<Rightarrow> string" where
  "unsupported_schema_version v =
     ''Invalid simulation: schema version '' @ v
       @ '' is not supported by this version of Hoverfly, you may need to update Hoverfly''"

text \<open>The part of the message for an unsupported version that the specification quotes.\<close>

definition unsupported_fragment :: "string \<Rightarrow> string" where
  "unsupported_fragment v = ''schema version '' @ v @ '' is not supported by this version''"

text \<open>
  Modelled from the spec: \<open>v2.NewSimulationViewFromResponseBody\<close> is not among the sources;
  its tests in \<^verbatim>\<open>core/handlers/v2/simulation_views_test.go\<close> are. The function is modelled
  up to the choice of the schema: from the parsed body (\<open>None\<close> for bytes that are not a
  JSON object) it yields the error message of a rejection or the schema version under which
  the import goes on. Section 6 of the specification: a missing \<open>meta.schemaVersion\<close> is
  rejected with \<open>Invalid JSON, missing "meta.schemaVersion" string\<close>, an unknown schema
  version \<open>X\<close> with \<open>schema version X is not supported by this version\<close>, and the versions
  are \<open>v1\<close>, \<open>v2\<close> and \<open>v3\<close>. The messages are those the tests compare with. For a
  body without a \<open>meta\<close> object the specification names the same message as for a missing
  schema version, and the test \<open>WontBlowUpIfMetaIsMissing\<close> expects
  \<open>Invalid JSON, missing "meta" object\<close>: the model follows the test. A \<open>meta\<close> that is
  not an object and a \<open>schemaVersion\<close> that is not a string count as missing, as the
  messages word it.
\<close>

definition NewSimulationViewFromResponseBody_schema :: "json option \<Rightarrow> string + string" where
  "NewSimulationViewFromResponseBody_schema body =
     (case body of
        Some (JObject members) \<Rightarrow>
          (case json_member members ''meta'' of
             Some (JObject meta) \<Rightarrow>
               (case json_member meta ''schemaVersion'' of
                  Some (JString schemaVersion) \<Rightarrow>
                    if schemaVersion = ''v3'' \<or> schemaVersion = ''v2'' \<or> schemaVersion = ''v1''
                    then Inr schemaVersion
                    else Inl (unsupported_schema_version schemaVersion)
                | _ \<Rightarrow> Inl missing_schema_version)
           | _ \<Rightarrow> Inl missing_meta_object)
      | _ \<Rightarrow> Inl ''Invalid JSON'')"

text \<open>Whether a body has a \<open>meta\<close> object, and whether that has a \<open>schemaVersion\<close> string.\<close>

definition has_meta :: "(string \<times> json) list \<Rightarrow> bool" where
  "has_meta members = (case json_member members ''meta'' of Some (JObject meta) \<Rightarrow> True | _ \<Rightarrow> False)"

definition schema_version_of :: "(string \<times> json) list \<Rightarrow> string option" where
  "schema_version_of members =
     (case json_member members ''meta'' of
        Some (JObject meta) \<Rightarrow>
          (case json_member meta ''schemaVersion'' of Some (JString v) \<Rightarrow> Some v | _ \<Rightarrow> None)
      | _ \<Rightarrow> None)"

section \<open>Remote middleware\<close>

text \<open>
  Modelled from the spec: \<open>ExecuteMiddlewareRemotely\<close> is not among the sources; its tests in
  \<^verbatim>\<open>core/middleware_test.go\<close> are. Section 4.5 of the specification: the payload is
  posted as JSON to the URL; a \<open>200 OK\<close> with a JSON body is applied; any other status, a
  transport failure or a parse failure returns the original payload and a failure reason.
  \<open>post\<close> is the HTTP exchange (an error, or status and body), \<open>encode\<close> and \<open>decode\<close>
  are the JSON codec of the payload (\<open>decode\<close> yields the parser's message when the body
  does not parse). The message for a status other than 200 is the one the tests expect; the
  same message stands for a transport failure. The result is the payload and the error,
  \<open>None\<close> for \<open>nil\<close>.
\<close>

definition ExecuteMiddlewareRemotely ::
  "(string \<Rightarrow> string \<Rightarrow> string + (int \<times> string)) \<Rightarrow> ('p \<Rightarrow> string) \<Rightarrow> (string \<Rightarrow> string + 'p) \<Rightarrow>
   string \<Rightarrow> 'p \<Rightarrow> 'p \<times> string option" where
  "ExecuteMiddlewareRemotely post encode decode url payload =
     (case post url (encode payload) of
        Inl err \<Rightarrow> (payload, Some ''Error when communicating with remote middleware'')
      | Inr (status, body) \<Rightarrow>
          if status \<noteq> 200 then (payload, Some ''Error when communicating with remote middleware'')
          else (case decode body of
                  Inl err \<Rightarrow> (payload, Some err)
                | Inr newPayload \<Rightarrow> (newPayload, None)))"

section \<open>Theorems\<close>

subsection \<open>BoltAuth.Delete\<close>

lemma Delete_depth_unchanged: "Delete_depth n b key = (b, None)"
  by (induction n) simp_all

text \<open>
  C10. For every store and key, \<open>BoltAuth.Delete\<close> only ever calls itself: the call does
  not return (its value is \<open>None\<close>), and however deep the recursion is allowed to go, no
  result is produced and the database is exactly as it was, so the database delete is never
  reached.
\<close>

theorem BoltAuth_Delete_never_returns:
  "Delete b key = None \<and> (\<forall>n. Delete_depth n b key = (b, None))"
proof
  show "Delete b key = None"
  proof (cases "Delete b key")
    case None
    then show ?thesis .
  next
    case (Some r)
    have "False"
      by (rule Delete.raw_induct [where P = "\<lambda>_ _ _. False", OF _ Some]) blast
    then show ?thesis ..
  qed
  show "\<forall>n. Delete_depth n b key = (b, None)"
    by (simp add: Delete_depth_unchanged)
qed

subsection \<open>Decimal numbers\<close>

lemma nat_decimal_digits: "list_all is_digit (nat_decimal n) \<and> nat_decimal n \<noteq> []"
proof (induction n rule: nat_decimal.induct)
  case (1 n)
  have d: "\<And>d. d < 10 \<Longrightarrow> is_digit (digit_char d)"
    by (simp add: is_digit_def digit_char_def)
  show ?case
  proof (cases "n < 10")
    case True
    then show ?thesis by (subst nat_decimal.simps, subst (2) nat_decimal.simps) (simp add: d)
  next
    case False
    then show ?thesis using 1 by (subst nat_decimal.simps, subst (2) nat_decimal.simps) (simp add: d)
  qed
qed

lemma digits_value_nat_decimal: "digits_value (nat_decimal n) = int n"
proof (induction n rule: nat_decimal.induct)
  case (1 n)
  have d: "(of_char (digit_char d) :: int) - 48 = int d" if "d < 10" for d
  proof -
    have "(of_char (digit_char d) :: nat) = 48 + d"
      using that by (simp add: digit_char_def)
    then have "int (of_char (digit_char d)) = 48 + int d"
      by simp
    then show ?thesis
      by (simp only: of_nat_of_char)
  qed
  show ?case
  proof (cases "n < 10")
    case True
    then show ?thesis by (subst nat_decimal.simps) (simp add: d digits_value_def)
  next
    case False
    then have "digits_value (nat_decimal n) = digits_value (nat_decimal (n div 10)) * 10 + int (n mod 10)"
      by (subst nat_decimal.simps) (simp add: digits_value_def d)
    moreover have "int (n div 10) * 10 + int (n mod 10) = int (n div 10 * 10 + n mod 10)"
      by (simp only: of_nat_add of_nat_mult of_nat_numeral)
    moreover have "n div 10 * 10 + n mod 10 = n"
      by simp
    ultimately show ?thesis using 1 False by simp
  qed
qed

lemma nat_decimal_hd: "hd (nat_decimal n) \<noteq> CHR ''-'' \<and> hd (nat_decimal n) \<noteq> CHR ''+''"
proof -
  have "is_digit (hd (nat_decimal n))"
    using nat_decimal_digits [of n] by (cases "nat_decimal n") simp_all
  then show ?thesis by (auto simp: is_digit_def)
qed

lemma Atoi_Itoa: "0 \<le> i \<Longrightarrow> i < 2 ^ 63 \<Longrightarrow> Atoi (Itoa i) = i"
  using nat_decimal_digits [of "nat i"] nat_decimal_hd [of "nat i"] 
  by (simp add: Atoi_def Itoa_def Let_def digits_value_nat_decimal)

lemma Itoa_nonempty: "Itoa i \<noteq> []"
  using nat_decimal_digits by (simp add: Itoa_def)

lemma Itoa_1: "Itoa 1 = ''1''"
  by code_simp

lemma Itoa_2: "Itoa 2 = ''2''"
  by code_simp

lemma Itoa_3: "Itoa 3 = ''3''"
  by code_simp

lemma wrap64_id: "- (2 ^ 63) \<le> x \<Longrightarrow> x < 2 ^ 63 \<Longrightarrow> wrap64 x = x"
  by (simp add: wrap64_def)

lemma next_sequence:
  assumes "0 \<le> i" "i + 1 < 2 ^ 63"
  shows "Itoa (wrap64 (Atoi (Itoa i) + 1)) = Itoa (i + 1)"
proof -
  have "Atoi (Itoa i) = i"
    using assms by (simp add: Atoi_Itoa)
  moreover have "wrap64 (i + 1) = i + 1"
    using assms by (simp add: wrap64_id)
  ultimately show ?thesis by simp
qed

subsection \<open>AddPairInSequence\<close>

lemma map_assign_same: "cells h a k = Some v \<Longrightarrow> map_assign h a k v = h"
  by (simp add: map_assign_def map_upd_triv)

lemma body_skip:
  "Fields_mem pair \<noteq> Fields_mem s \<Longrightarrow>
   AddPairInSequence_body state i s (pair, c, u, h) = Inr (pair, c, u, h)"
  by (simp add: AddPairInSequence_body_def)

lemma loop_skip:
  "\<forall>s \<in> set xs. Fields_mem s \<noteq> Fields_mem pair \<Longrightarrow>
   AddPairInSequence_loop state (enumerate n xs) (pair, c, u, h) = Inr (pair, c, u, h)"
proof (induction xs arbitrary: n)
  case Nil
  then show ?case by simp
next
  case (Cons x xs)
  have "Fields_mem pair \<noteq> Fields_mem x"
    using Cons.prems by auto
  then show ?case
    using Cons by (simp add: body_skip)
qed

lemma loop_append:
  "AddPairInSequence_loop state (xs @ ys) s =
     (case AddPairInSequence_loop state xs s of
        Inl p \<Rightarrow> Inl p
      | Inr s' \<Rightarrow> AddPairInSequence_loop state ys s')"
proof (induction xs arbitrary: s)
  case Nil
  then show ?case by simp
next
  case (Cons x xs)
  obtain i p where x: "x = (i, p)"
    by (cases x)
  show ?case
    by (cases "AddPairInSequence_body state i p s") (simp_all add: x Cons.IH)
qed

lemma apply_updates_empty: "apply_updates Map.empty xs = xs"
  by (rule nth_equalityI) (simp_all add: apply_updates_def nth_enumerate_eq)

lemma apply_updates_tail:
  assumes "length ys = k"
  shows "apply_updates (\<lambda>x. if length base \<le> x \<and> x < length base + k then Some (f (x - length base)) else None)
           (base @ ys) = base @ map f [0..<k]"
  using assms
  by (intro nth_equalityI) (auto simp: apply_updates_def nth_enumerate_eq nth_append)

lemma body_mid:
  assumes "Fields_mem pair = Fields_mem s"
    and "RequiresState_mem s = Some r" "TransitionsState_mem s = Some t"
    and "map_or_make (RequiresState_mem pair) h = (a, h')"
    and "cells h' r = [''sequence'' \<mapsto> Itoa (int i + 1)]"
    and "cells h' t = [''sequence'' \<mapsto> Itoa (int i + 2)]"
    and "int i + 2 < 2 ^ 63"
  shows "AddPairInSequence_body state x s (pair, c, u, h) =
     Inr (pair\<lparr>RequiresState_mem := Some a\<rparr>, c + 1, u(x \<mapsto> s), h')"
proof -
  have n: "Itoa (wrap64 (Atoi (Itoa (int i + 1)) + 1)) = Itoa (int i + 2)"
    using next_sequence [of "int i + 1"] assms(7) by (simp add: ac_simps)
  have s: "s\<lparr>RequiresState_mem := Some r, TransitionsState_mem := Some t\<rparr> = s"
    using assms(2,3) by (cases s) simp
  have w1: "map_assign h' r ''sequence'' (Itoa (int i + 1)) = h'"
    using assms(5) by (simp add: map_assign_same)
  have w2: "map_assign h' t ''sequence'' (Itoa (int i + 2)) = h'"
    using assms(6) by (simp add: map_assign_same)
  show ?thesis
    using assms(1-4)
    by (simp add: AddPairInSequence_body_def Let_def map_or_make_def assms(5) map_index_def
        Itoa_nonempty n w1 w2 s)
qed

lemma body_last:
  assumes "Fields_mem pair = Fields_mem s"
    and "RequiresState_mem s = Some r" "TransitionsState_mem s = None"
    and "RequiresState_mem pair = Some a"
    and "cells h r = [''sequence'' \<mapsto> Itoa (int i + 1)]" "r < next_addr h"
    and "int i + 2 < 2 ^ 63"
  shows "AddPairInSequence_body state x s (pair, c, u, h) =
     Inr (pair, c + 1, u(x \<mapsto> s\<lparr>TransitionsState_mem := Some (next_addr h)\<rparr>),
          map_assign (snd (make_map h)) (next_addr h) ''sequence'' (Itoa (int i + 2)))"
proof -
  have n: "Itoa (wrap64 (Atoi (Itoa (int i + 1)) + 1)) = Itoa (int i + 2)"
    using next_sequence [of "int i + 1"] assms(7) by (simp add: ac_simps)
  have s: "s\<lparr>RequiresState_mem := Some r\<rparr> = s"
    using assms(2) by (cases s) simp
  have p: "pair\<lparr>RequiresState_mem := Some a\<rparr> = pair"
    using assms(4) by (cases pair) simp
  have c: "cells (snd (make_map h)) r = [''sequence'' \<mapsto> Itoa (int i + 1)]"
    using assms(5,6) by (simp add: make_map_def)
  have w1: "map_assign (snd (make_map h)) r ''sequence'' (Itoa (int i + 1)) = snd (make_map h)"
    using c by (simp add: map_assign_same)
  have mk: "make_map h = (next_addr h, snd (make_map h))"
    by (simp add: make_map_def)
  show ?thesis
    using assms(1-4)
    apply (simp add: AddPairInSequence_body_def Let_def map_or_make_def s p)
    apply (subst mk)
    apply (simp add: c map_index_def Itoa_nonempty n w1 s)
    done
qed

lemma saved_pair_Suc: "Suc i < k \<Longrightarrow> saved_pair n F Rs (Suc k) i = saved_pair n F Rs k i"
  by (simp add: saved_pair_def)

lemma updates_next:
  "(\<lambda>x. if lb \<le> x \<and> x < lb + j then Some (f (x - lb)) else None)(lb + j \<mapsto> f j) =
   (\<lambda>x. if lb \<le> x \<and> x < lb + Suc j then Some (f (x - lb)) else None)"
  by (rule ext) auto

lemma loop_mid:
  assumes req: "\<forall>i<k. cells H (requires_addr n i) = [''sequence'' \<mapsto> Itoa (int i + 1)]"
    and tr: "\<forall>i. Suc i < k \<longrightarrow> cells H (transitions_addr n i) = [''sequence'' \<mapsto> Itoa (int i + 2)]"
    and k: "int k + 1 < 2 ^ 63"
    and pr: "Fields_mem pr = F" "RequiresState_mem pr = Some a"
    and jm: "j \<le> m" "Suc m \<le> k"
  shows "AddPairInSequence_loop state (enumerate (lb + j) (map (saved_pair n F Rs k) [j..<m]))
           (pr, int j, (\<lambda>x. if lb \<le> x \<and> x < lb + j then Some (saved_pair n F Rs (Suc k) (x - lb)) else None), H) =
         Inr (pr, int m, (\<lambda>x. if lb \<le> x \<and> x < lb + m then Some (saved_pair n F Rs (Suc k) (x - lb)) else None), H)"
  using jm
proof (induction m rule: dec_induct)
  case base
  then show ?case by simp
next
  case (step m)
  have m: "Suc m < k"
    using step.prems by simp
  have p: "pr\<lparr>RequiresState_mem := Some a\<rparr> = pr"
    using pr(2) by (cases pr) simp
  have body: "AddPairInSequence_body state (lb + m) (saved_pair n F Rs k m)
        (pr, int m, (\<lambda>x. if lb \<le> x \<and> x < lb + m then Some (saved_pair n F Rs (Suc k) (x - lb)) else None), H) =
      Inr (pr\<lparr>RequiresState_mem := Some a\<rparr>, int m + 1,
           (\<lambda>x. if lb \<le> x \<and> x < lb + m then Some (saved_pair n F Rs (Suc k) (x - lb)) else None)
             (lb + m \<mapsto> saved_pair n F Rs k m), H)"
  proof (rule body_mid)
    show "Fields_mem pr = Fields_mem (saved_pair n F Rs k m)"
      by (simp add: pr(1) saved_pair_def)
    show "RequiresState_mem (saved_pair n F Rs k m) = Some (requires_addr n m)"
      by (simp add: saved_pair_def)
    show "TransitionsState_mem (saved_pair n F Rs k m) = Some (transitions_addr n m)"
      using m by (simp add: saved_pair_def)
    show "map_or_make (RequiresState_mem pr) H = (a, H)"
      by (simp add: pr(2) map_or_make_def)
    show "cells H (requires_addr n m) = [''sequence'' \<mapsto> Itoa (int m + 1)]"
      using req m by simp
    show "cells H (transitions_addr n m) = [''sequence'' \<mapsto> Itoa (int m + 2)]"
      using tr m by simp
    show "int m + 2 < 2 ^ 63"
      using k m by simp
  qed
  have upd: "(\<lambda>x. if lb \<le> x \<and> x < lb + m then Some (saved_pair n F Rs (Suc k) (x - lb)) else None)
             (lb + m \<mapsto> saved_pair n F Rs k m) =
        (\<lambda>x. if lb \<le> x \<and> x < lb + Suc m then Some (saved_pair n F Rs (Suc k) (x - lb)) else None)"
    using updates_next [of lb m "saved_pair n F Rs (Suc k)"] m by (simp add: saved_pair_Suc)
  have l: "[j..<Suc m] = [j..<m] @ [m]"
    using step.hyps by simp
  have ih: "AddPairInSequence_loop state (enumerate (lb + j) (map (saved_pair n F Rs k) [j..<m]))
           (pr, int j, (\<lambda>x. if lb \<le> x \<and> x < lb + j then Some (saved_pair n F Rs (Suc k) (x - lb)) else None), H) =
         Inr (pr, int m, (\<lambda>x. if lb \<le> x \<and> x < lb + m then Some (saved_pair n F Rs (Suc k) (x - lb)) else None), H)"
    using step.IH step.prems by simp
  have e: "enumerate (lb + j) (map (saved_pair n F Rs k) [j..<Suc m]) =
      enumerate (lb + j) (map (saved_pair n F Rs k) [j..<m]) @ [(lb + m, saved_pair n F Rs k m)]"
    using step.hyps by (simp add: l enumerate_append_eq)
  show ?case
    unfolding e loop_append ih
    by (simp add: body p upd)
qed

lemma requires_addr_less: "i < k \<Longrightarrow> 2 \<le> k \<Longrightarrow> requires_addr n i < n + 2 * k - 1"
  by (auto simp: requires_addr_def)

lemma transitions_addr_less: "Suc i < k \<Longrightarrow> transitions_addr n i < n + 2 * k - 1"
  by (auto simp: transitions_addr_def)

lemma requires_addr_next: "2 \<le> k \<Longrightarrow> requires_addr n k = n + 2 * k - 1"
  by (auto simp: requires_addr_def)

lemma transitions_addr_next: "2 \<le> k \<Longrightarrow> transitions_addr n (k - 1) = Suc (n + 2 * k - 1)"
  by (auto simp: transitions_addr_def)

lemma AddPairInSequence_loop_next:
  assumes fresh: "\<forall>s \<in> set base. Fields_mem s \<noteq> F"
    and inv: "sequence_heap n k h"
    and k: "2 \<le> k" "int k + 1 < 2 ^ 63"
  shows "AddPairInSequence_loop state (enumerate 0 (base @ map (saved_pair n F Rs k) [0..<k]))
           (new_pair F R, 0, Map.empty, h) =
     Inr ((new_pair F R)\<lparr>RequiresState_mem := Some (requires_addr n k)\<rparr>, int k,
          (\<lambda>x. if length base \<le> x \<and> x < length base + k
                then Some (saved_pair n F Rs (Suc k) (x - length base)) else None),
          map_assign (snd (make_map (snd (make_map h)))) (Suc (next_addr h)) ''sequence'' (Itoa (int k + 1)))"
proof -
  let ?lb = "length base"
  let ?a = "next_addr h"
  let ?H = "snd (make_map h)"
  let ?pr = "(new_pair F R)\<lparr>RequiresState_mem := Some ?a\<rparr>"
  let ?sp = "saved_pair n F Rs k"
  let ?U = "\<lambda>j x. if ?lb \<le> x \<and> x < ?lb + j then Some (saved_pair n F Rs (Suc k) (x - ?lb)) else None"
  have a: "?a = n + 2 * k - 1"
    using inv by (simp add: sequence_heap_def)
  have old: "cells ?H x = cells h x" if "x < ?a" for x
    using that by (simp add: make_map_def)
  have req: "\<forall>i<k. cells ?H (requires_addr n i) = [''sequence'' \<mapsto> Itoa (int i + 1)]"
  proof (intro allI impI)
    fix i
    assume i: "i < k"
    have "requires_addr n i < ?a"
      using requires_addr_less [OF i k(1)] a by simp
    then show "cells ?H (requires_addr n i) = [''sequence'' \<mapsto> Itoa (int i + 1)]"
      using inv i by (simp add: old sequence_heap_def)
  qed
  have tr: "\<forall>i. Suc i < k \<longrightarrow> cells ?H (transitions_addr n i) = [''sequence'' \<mapsto> Itoa (int i + 2)]"
  proof (intro allI impI)
    fix i
    assume i: "Suc i < k"
    have "transitions_addr n i < ?a"
      using transitions_addr_less [OF i] a by simp
    then show "cells ?H (transitions_addr n i) = [''sequence'' \<mapsto> Itoa (int i + 2)]"
      using inv i by (simp add: old sequence_heap_def)
  qed
  have nH: "next_addr ?H = Suc ?a"
    by (simp add: make_map_def)
  have skip: "AddPairInSequence_loop state (enumerate 0 base) (new_pair F R, 0, Map.empty, h) =
      Inr (new_pair F R, 0, Map.empty, h)"
    using fresh by (intro loop_skip) (simp add: new_pair_def)
  have split: "[0..<k] = 0 # [1..<k - 1] @ [k - 1]"
  proof -
    have "[0..<k] = 0 # [1..<k]"
      using k(1) by (simp add: upt_conv_Cons)
    moreover have "[1..<k] = [1..<k - 1] @ [k - 1]"
    proof -
      obtain k' where k': "k = Suc k'" "1 \<le> k'"
        using k(1) by (cases k) simp_all
      show ?thesis
        using k'(2) by (simp add: k'(1))
    qed
    ultimately show ?thesis by simp
  qed
  have e: "enumerate 0 (base @ map ?sp [0..<k]) =
      enumerate 0 base @ (?lb, ?sp 0) # enumerate (?lb + 1) (map ?sp [1..<k - 1]) @ [(?lb + (k - 1), ?sp (k - 1))]"
    using k(1) by (simp add: split enumerate_append_eq)
  have first: "AddPairInSequence_body state ?lb (?sp 0) (new_pair F R, 0, Map.empty, h) =
      Inr (?pr, 0 + 1, Map.empty(?lb \<mapsto> ?sp 0), ?H)"
  proof (rule body_mid)
    show "Fields_mem (new_pair F R) = Fields_mem (?sp 0)"
      by (simp add: new_pair_def saved_pair_def)
    show "RequiresState_mem (?sp 0) = Some (requires_addr n 0)"
      by (simp add: saved_pair_def)
    show "TransitionsState_mem (?sp 0) = Some (transitions_addr n 0)"
      using k(1) by (simp add: saved_pair_def)
    show "map_or_make (RequiresState_mem (new_pair F R)) h = (?a, ?H)"
      by (simp add: new_pair_def map_or_make_def make_map_def)
    show "cells ?H (requires_addr n 0) = [''sequence'' \<mapsto> Itoa (int 0 + 1)]"
      using req k(1) by simp
    show "cells ?H (transitions_addr n 0) = [''sequence'' \<mapsto> Itoa (int 0 + 2)]"
      using tr k(1) by simp
    show "int 0 + 2 < 2 ^ 63"
      by simp
  qed
  have u1: "Map.empty(?lb \<mapsto> ?sp 0) = ?U 1"
    using k(1) by (intro ext) (auto simp: saved_pair_def)
  have mid: "AddPairInSequence_loop state (enumerate (?lb + 1) (map ?sp [1..<k - 1])) (?pr, int 1, ?U 1, ?H) =
      Inr (?pr, int (k - 1), ?U (k - 1), ?H)"
    using k by (intro loop_mid [OF req tr]) (simp_all add: new_pair_def)
  have last: "AddPairInSequence_body state (?lb + (k - 1)) (?sp (k - 1)) (?pr, int (k - 1), ?U (k - 1), ?H) =
      Inr (?pr, int (k - 1) + 1,
           (?U (k - 1))(?lb + (k - 1) \<mapsto> (?sp (k - 1))\<lparr>TransitionsState_mem := Some (next_addr ?H)\<rparr>),
           map_assign (snd (make_map ?H)) (next_addr ?H) ''sequence'' (Itoa (int (k - 1) + 2)))"
  proof (rule body_last)
    show "Fields_mem ?pr = Fields_mem (?sp (k - 1))"
      by (simp add: new_pair_def saved_pair_def)
    show "RequiresState_mem (?sp (k - 1)) = Some (requires_addr n (k - 1))"
      by (simp add: saved_pair_def)
    show "TransitionsState_mem (?sp (k - 1)) = None"
      using k(1) by (simp add: saved_pair_def)
    show "RequiresState_mem ?pr = Some ?a"
      by simp
    show "cells ?H (requires_addr n (k - 1)) = [''sequence'' \<mapsto> Itoa (int (k - 1) + 1)]"
      using req k(1) by simp
    show "requires_addr n (k - 1) < next_addr ?H"
      using requires_addr_less [of "k - 1" k n] k(1) by (simp add: nH a)
    show "int (k - 1) + 2 < 2 ^ 63"
      using k by simp
  qed
  have sl: "(?sp (k - 1))\<lparr>TransitionsState_mem := Some (next_addr ?H)\<rparr> = saved_pair n F Rs (Suc k) (k - 1)"
    using k(1) transitions_addr_next [of k n] by (simp add: saved_pair_def nH a)
  have uk: "(?U (k - 1))(?lb + (k - 1) \<mapsto> saved_pair n F Rs (Suc k) (k - 1)) = ?U k"
    using updates_next [of ?lb "k - 1" "saved_pair n F Rs (Suc k)"] k(1) by simp
  have ik: "int (k - 1) + 1 = int k" "int (k - 1) + 2 = int k + 1"
    using k(1) by simp_all
  have rk: "requires_addr n k = ?a"
    using requires_addr_next [OF k(1)] a by simp
  let ?rest = "enumerate (?lb + 1) (map ?sp [1..<k - 1]) @ [(?lb + (k - 1), ?sp (k - 1))]"
  let ?final = "map_assign (snd (make_map ?H)) (Suc ?a) ''sequence'' (Itoa (int k + 1))"
  have rest: "AddPairInSequence_loop state ?rest (?pr, int 1, ?U 1, ?H) = Inr (?pr, int k, ?U k, ?final)"
  proof -
    have "AddPairInSequence_loop state ?rest (?pr, int 1, ?U 1, ?H) =
        AddPairInSequence_loop state [(?lb + (k - 1), ?sp (k - 1))] (?pr, int (k - 1), ?U (k - 1), ?H)"
      unfolding loop_append mid by (simp only: sum.case)
    also have "\<dots> = Inr (?pr, int k, ?U k, ?final)"
      by (simp only: AddPairInSequence_loop.simps last [unfolded nH] sum.case sl [unfolded nH] uk ik)
    finally show ?thesis .
  qed
  have "AddPairInSequence_loop state (enumerate 0 (base @ map ?sp [0..<k])) (new_pair F R, 0, Map.empty, h) =
      AddPairInSequence_loop state ((?lb, ?sp 0) # ?rest) (new_pair F R, 0, Map.empty, h)"
    unfolding e loop_append skip by simp
  also have "\<dots> = AddPairInSequence_loop state ?rest (?pr, int 1, ?U 1, ?H)"
    by (simp add: first u1)
  also note rest
  finally show ?thesis
    by (simp only: rk)
qed

lemma AddPairInSequence_next:
  assumes fresh: "\<forall>s \<in> set base. Fields_mem s \<noteq> F"
    and pairs: "matchingPairs_mem this = base @ map (saved_pair n F Rs k) [0..<k]"
    and inv: "sequence_heap n k h"
    and k: "2 \<le> k" "int k + 1 < 2 ^ 63"
  shows "AddPairInSequence this (new_pair F (Rs ! k)) state h =
     Inr (this\<lparr>matchingPairs_mem := base @ map (saved_pair n F Rs (Suc k)) [0..<Suc k]\<rparr>,
          saved_pair n F Rs (Suc k) k,
          map_assign
            (map_assign (snd (make_map (snd (make_map h)))) (Suc (next_addr h)) ''sequence'' (Itoa (int k + 1)))
            (next_addr h) ''sequence'' (Itoa (int k + 1)))"
proof -
  have a: "requires_addr n k = next_addr h"
    using requires_addr_next [OF k(1)] inv by (simp add: sequence_heap_def)
  have new: "(new_pair F (Rs ! k))\<lparr>RequiresState_mem := Some (requires_addr n k)\<rparr> = saved_pair n F Rs (Suc k) k"
    by (simp add: new_pair_def saved_pair_def)
  have c: "int k \<noteq> 0"
    using k(1) by simp
  have upd: "apply_updates (\<lambda>x. if length base \<le> x \<and> x < length base + k
                then Some (saved_pair n F Rs (Suc k) (x - length base)) else None)
        (base @ map (saved_pair n F Rs k) [0..<k]) = base @ map (saved_pair n F Rs (Suc k)) [0..<k]"
    by (rule apply_updates_tail) simp
  show ?thesis
    unfolding AddPairInSequence_def pairs AddPairInSequence_loop_next [OF fresh inv k] new
    using c by (simp add: upd Let_def saved_pair_def a)
qed

lemma sequence_heap_next:
  assumes inv: "sequence_heap n k h" and k: "2 \<le> k"
    and h': "h' = map_assign
            (map_assign (snd (make_map (snd (make_map h)))) (Suc (next_addr h)) ''sequence'' (Itoa (int k + 1)))
            (next_addr h) ''sequence'' (Itoa (int k + 1))"
  shows "sequence_heap n (Suc k) h'" and "\<forall>a<next_addr h. cells h' a = cells h a"
proof -
  have a: "next_addr h = n + 2 * k - 1"
    using inv by (simp add: sequence_heap_def)
  have c: "cells h' x =
      (if x = next_addr h \<or> x = Suc (next_addr h) then [''sequence'' \<mapsto> Itoa (int k + 1)] else cells h x)" for x
    by (simp add: h' make_map_def map_assign_def)
  have nx: "next_addr h' = n + 2 * Suc k - 1"
    using k by (simp add: h' make_map_def map_assign_def a)
  show "\<forall>a<next_addr h. cells h' a = cells h a"
    by (simp add: c)
  have req: "cells h' (requires_addr n i) = [''sequence'' \<mapsto> Itoa (int i + 1)]" if "i < Suc k" for i
  proof (cases "i = k")
    case True
    then show ?thesis
      using requires_addr_next [OF k] by (simp add: c a)
  next
    case False
    then have i: "i < k" using that by simp
    have "requires_addr n i < next_addr h"
      using requires_addr_less [OF i k] a by simp
    then have "requires_addr n i \<noteq> next_addr h" "requires_addr n i \<noteq> Suc (next_addr h)"
      by simp_all
    then show ?thesis
      using inv i by (simp only: c sequence_heap_def) simp
  qed
  have tr: "cells h' (transitions_addr n i) = [''sequence'' \<mapsto> Itoa (int i + 2)]" if "Suc i < Suc k" for i
  proof (cases "Suc i = k")
    case True
    then have t: "transitions_addr n i = Suc (next_addr h)"
      using transitions_addr_next [OF k] a by auto
    have "int i + 2 = int k + 1"
      using True by auto
    then have "Itoa (int i + 2) = Itoa (int k + 1)"
      by (simp only:)
    then show ?thesis
      by (simp only: c t) simp
  next
    case False
    then have i: "Suc i < k" using that by simp
    have "transitions_addr n i < next_addr h"
      using transitions_addr_less [OF i] a by simp
    then have "transitions_addr n i \<noteq> next_addr h" "transitions_addr n i \<noteq> Suc (next_addr h)"
      by simp_all
    then show ?thesis
      using inv i by (simp only: c sequence_heap_def) simp
  qed
  show "sequence_heap n (Suc k) h'"
    unfolding sequence_heap_def using nx req tr by blast
qed

lemma AddPairInSequence_first:
  assumes fresh: "\<forall>s \<in> set (matchingPairs_mem this). Fields_mem s \<noteq> F"
  shows "AddPairInSequence this (new_pair F R) state h =
     Inr (this\<lparr>matchingPairs_mem := matchingPairs_mem this @ [new_pair F R]\<rparr>, new_pair F R, h)"
proof -
  have "AddPairInSequence_loop state (enumerate 0 (matchingPairs_mem this)) (new_pair F R, 0, Map.empty, h) =
      Inr (new_pair F R, 0, Map.empty, h)"
    using fresh by (intro loop_skip) (simp add: new_pair_def)
  then show ?thesis
    by (simp add: AddPairInSequence_def apply_updates_empty)
qed

lemma AddPairInSequence_second:
  assumes fresh: "\<forall>s \<in> set base. Fields_mem s \<noteq> F"
    and pairs: "matchingPairs_mem this = base @ [new_pair F (Rs ! 0)]"
    and st: "State state = Some st" "st < next_addr h"
  shows "\<exists>h'. AddPairInSequence this (new_pair F (Rs ! 1)) state h =
            Inr (this\<lparr>matchingPairs_mem := base @ map (saved_pair (next_addr h) F Rs 2) [0..<2]\<rparr>,
                 saved_pair (next_addr h) F Rs 2 1, h')
          \<and> sequence_heap (next_addr h) 2 h'
          \<and> cells h' st = (cells h st)(''sequence'' \<mapsto> ''1'')
          \<and> (\<forall>a<next_addr h. a \<noteq> st \<longrightarrow> cells h' a = cells h a)"
proof -
  let ?n = "next_addr h"
  have skip: "AddPairInSequence_loop state (enumerate 0 base) (new_pair F (Rs ! 1), 0, Map.empty, h) =
      Inr (new_pair F (Rs ! 1), 0, Map.empty, h)"
    using fresh by (intro loop_skip) (simp add: new_pair_def)
  have e: "enumerate 0 (base @ [new_pair F (Rs ! 0)]) = enumerate 0 base @ [(length base, new_pair F (Rs ! 0))]"
    by (simp add: enumerate_append_eq)
  have two: "[0..<2] = [0, Suc 0]"
    by (simp add: upt_rec)
  have upd: "apply_updates [length base \<mapsto> x] (base @ [y]) = base @ [x]" for x y :: "'a RequestMatcherResponsePair_mem"
    by (rule nth_equalityI) (auto simp: apply_updates_def nth_enumerate_eq nth_append)
  have lt2: "i < 2 \<longleftrightarrow> i = 0 \<or> i = Suc 0" for i :: nat
    by auto
  show ?thesis
    unfolding AddPairInSequence_def pairs e loop_append skip
    using st
    by (simp add: AddPairInSequence_body_def new_pair_def Let_def map_or_make_def make_map_def
        map_assign_def map_index_def upd two saved_pair_def requires_addr_def transitions_addr_def
        sequence_heap_def lt2 Itoa_1 Itoa_2)
qed

lemma AddPairsInSequence_more:
  assumes fresh: "\<forall>s \<in> set base. Fields_mem s \<noteq> F"
    and N: "int (length Rs) + 1 < 2 ^ 63"
  shows "2 \<le> k \<Longrightarrow> k \<le> length Rs \<Longrightarrow>
     matchingPairs_mem this = base @ map (saved_pair n F Rs k) [0..<k] \<Longrightarrow> sequence_heap n k h \<Longrightarrow>
     \<exists>h'. AddPairsInSequence this state h (map (new_pair F) (drop k Rs)) =
            Inr (this\<lparr>matchingPairs_mem := base @ map (saved_pair n F Rs (length Rs)) [0..<length Rs]\<rparr>, h')
          \<and> sequence_heap n (length Rs) h'
          \<and> (\<forall>a<next_addr h. cells h' a = cells h a)"
proof (induction "length Rs - k" arbitrary: k this h)
  case 0
  then have k: "k = length Rs" by simp
  have "this\<lparr>matchingPairs_mem := base @ map (saved_pair n F Rs (length Rs)) [0..<length Rs]\<rparr> = this"
    using 0(4) by (simp add: k)
  then show ?case
    using 0(5) by (simp add: k)
next
  case (Suc d)
  have k: "k < length Rs" "2 \<le> k" "int k + 1 < 2 ^ 63"
    using Suc.hyps(2) Suc.prems(1) N by simp_all
  let ?h1 = "map_assign
            (map_assign (snd (make_map (snd (make_map h)))) (Suc (next_addr h)) ''sequence'' (Itoa (int k + 1)))
            (next_addr h) ''sequence'' (Itoa (int k + 1))"
  let ?this1 = "this\<lparr>matchingPairs_mem := base @ map (saved_pair n F Rs (Suc k)) [0..<Suc k]\<rparr>"
  have step: "AddPairInSequence this (new_pair F (Rs ! k)) state h =
      Inr (?this1, saved_pair n F Rs (Suc k) k, ?h1)"
    by (rule AddPairInSequence_next [OF fresh Suc.prems(3) Suc.prems(4) k(2) k(3)])
  have inv1: "sequence_heap n (Suc k) ?h1" and frame1: "\<forall>a<next_addr h. cells ?h1 a = cells h a"
    using sequence_heap_next [OF Suc.prems(4) k(2) refl] by simp_all
  have "\<exists>h'. AddPairsInSequence ?this1 state ?h1 (map (new_pair F) (drop (Suc k) Rs)) =
            Inr (?this1\<lparr>matchingPairs_mem := base @ map (saved_pair n F Rs (length Rs)) [0..<length Rs]\<rparr>, h')
          \<and> sequence_heap n (length Rs) h'
          \<and> (\<forall>a<next_addr ?h1. cells h' a = cells ?h1 a)"
  proof (rule Suc.hyps(1))
    show "d = length Rs - Suc k" using Suc.hyps(2) by simp
    show "2 \<le> Suc k" using k(2) by simp
    show "Suc k \<le> length Rs" using k(1) by simp
    show "matchingPairs_mem ?this1 = base @ map (saved_pair n F Rs (Suc k)) [0..<Suc k]" by simp
    show "sequence_heap n (Suc k) ?h1" by (rule inv1)
  qed
  then obtain h' where h':
    "AddPairsInSequence ?this1 state ?h1 (map (new_pair F) (drop (Suc k) Rs)) =
       Inr (?this1\<lparr>matchingPairs_mem := base @ map (saved_pair n F Rs (length Rs)) [0..<length Rs]\<rparr>, h')"
    "sequence_heap n (length Rs) h'"
    "\<forall>a<next_addr ?h1. cells h' a = cells ?h1 a"
    by blast
  have nx: "next_addr h < next_addr ?h1"
    by (simp add: map_assign_def make_map_def)
  have frame: "\<forall>a<next_addr h. cells h' a = cells h a"
    using h'(3) frame1 nx by auto
  have d: "drop k Rs = Rs ! k # drop (Suc k) Rs"
    using k(1) by (simp add: Cons_nth_drop_Suc)
  have "AddPairsInSequence this state h (map (new_pair F) (drop k Rs)) =
      Inr (this\<lparr>matchingPairs_mem := base @ map (saved_pair n F Rs (length Rs)) [0..<length Rs]\<rparr>, h')"
    unfolding d using h'(1) by (simp add: step)
  then show ?case
    using h'(2) frame by blast
qed

lemma read_saved_pair:
  assumes inv: "sequence_heap n (length Rs) h" and i: "i < length Rs"
    and nil: "TransitionsState (Rs ! i) = None"
  shows "read_pair h (saved_pair n F Rs (length Rs) i) = expected_pair \<lparr>Fields = F, RequiresState = None\<rparr> Rs i"
proof (cases "Suc i < length Rs")
  case True
  then show ?thesis
    using inv i nil
    by (simp add: read_pair_def saved_pair_def expected_pair_def sequence_heap_def map_or_empty_def)
next
  case False
  have "(Rs ! i)\<lparr>TransitionsState := None\<rparr> = Rs ! i"
    using nil by (cases "Rs ! i") simp
  then show ?thesis
    using inv i False
    by (simp add: read_pair_def saved_pair_def expected_pair_def sequence_heap_def map_or_empty_def)
qed

subsection \<open>The sequence\<close>

lemma Itoa_inj:
  assumes "0 \<le> a" "a < 2 ^ 63" "0 \<le> b" "b < 2 ^ 63" "Itoa a = Itoa b"
  shows "a = b"
proof -
  have "a = Atoi (Itoa a)"
    using assms(1,2) by (simp add: Atoi_Itoa)
  also have "\<dots> = Atoi (Itoa b)"
    by (simp only: assms(5))
  also have "\<dots> = b"
    using assms(3,4) by (simp add: Atoi_Itoa)
  finally show ?thesis .
qed

lemma state_matches_expected:
  assumes "map_or_empty (RequiresState M) = Map.empty"
  shows "state_matches (RequiresState (RequestMatcher (expected_pair M Rs i))) st
     \<longleftrightarrow> st ''sequence'' = Some (Itoa (int i + 1))"
  using assms by (auto simp: state_matches_def expected_pair_def map_or_empty_def map_le_def)

lemma find_expected:
  assumes none: "map_or_empty (RequiresState M) = Map.empty"
    and base: "\<forall>s \<in> set base. \<not> field_match (Fields (RequestMatcher s)) req"
    and fm: "field_match (Fields M) req"
    and j: "j < N" "int N + 1 < 2 ^ 63"
    and st: "st ''sequence'' = Some (Itoa (int j + 1))"
  shows "find (\<lambda>p. field_match (Fields (RequestMatcher p)) req
                    \<and> state_matches (RequiresState (RequestMatcher p)) st)
           (base @ map (expected_pair M Rs) [0..<N]) = Some (expected_pair M Rs j)"
proof -
  let ?P = "\<lambda>p. field_match (Fields (RequestMatcher p)) req
                    \<and> state_matches (RequiresState (RequestMatcher p)) st"
  let ?xs = "base @ map (expected_pair M Rs) [0..<N]"
  have at: "?xs ! (length base + i) = expected_pair M Rs i" if "i < N" for i
    using that by (simp add: nth_append)
  have fields: "Fields (RequestMatcher (expected_pair M Rs i)) = Fields M" for i
    by (simp add: expected_pair_def)
  have P: "?P (expected_pair M Rs i) \<longleftrightarrow> i = j" if "i < N" for i
  proof -
    have "Itoa (int j + 1) = Itoa (int i + 1) \<longleftrightarrow> i = j"
      using Itoa_inj [of "int j + 1" "int i + 1"] that j by auto
    then show ?thesis
      using fm st by (simp add: fields state_matches_expected [OF none])
  qed
  have before: "\<not> ?P (?xs ! k)" if "k < length base + j" for k
  proof (cases "k < length base")
    case True
    then show ?thesis using base by (simp add: nth_append)
  next
    case False
    then have k: "k = length base + (k - length base)" and i: "k - length base < j"
      using that by simp_all
    have "\<not> ?P (expected_pair M Rs (k - length base))"
      using P [of "k - length base"] i j by simp
    then show ?thesis
      using at [of "k - length base"] i j k by simp
  qed
  have l: "length base + j < length ?xs"
    using j by simp
  have here: "?P (?xs ! (length base + j))"
    using at [of j] P [of j] j by simp
  have "\<exists>i<length ?xs. ?P (?xs ! i) \<and> expected_pair M Rs j = ?xs ! i \<and> (\<forall>k<i. \<not> ?P (?xs ! k))"
  proof (intro exI [of _ "length base + j"] conjI allI impI)
    show "length base + j < length ?xs" by (rule l)
    show "field_match (Fields (RequestMatcher (?xs ! (length base + j)))) req"
      using here by simp
    show "state_matches (RequiresState (RequestMatcher (?xs ! (length base + j)))) st"
      using here by simp
    show "expected_pair M Rs j = ?xs ! (length base + j)"
      using at [of j] j by simp
    show "\<not> ?P (?xs ! k)" if "k < length base + j" for k
      using before [OF that] .
  qed
  then show ?thesis
    by (simp only: find_Some_iff)
qed

lemma serve_expected:
  assumes none: "map_or_empty (RequiresState M) = Map.empty"
    and len: "length Rs = N" "int N + 1 < 2 ^ 63"
    and reqs: "\<forall>req \<in> set reqs. field_match (Fields M) req
                 \<and> (\<forall>s \<in> set base. \<not> field_match (Fields (RequestMatcher s)) req)"
    and j: "j + length reqs = N"
    and st: "st ''sequence'' = Some (Itoa (int j + 1))"
  shows "serve field_match (base @ map (expected_pair M Rs) [0..<N]) st reqs =
     map (\<lambda>i. Some (expected_pair M Rs i)) [j..<N]"
  using reqs j st
proof (induction reqs arbitrary: j st)
  case Nil
  then show ?case by simp
next
  case (Cons req reqs)
  have jN: "j < N"
    using Cons.prems(2) by simp
  have b: "\<forall>s \<in> set base. \<not> field_match (Fields (RequestMatcher s)) req"
    using Cons.prems(1) by simp
  have f: "field_match (Fields M) req"
    using Cons.prems(1) by simp
  have found: "find (\<lambda>p. field_match (Fields (RequestMatcher p)) req
                    \<and> state_matches (RequiresState (RequestMatcher p)) st)
           (base @ map (expected_pair M Rs) [0..<N]) = Some (expected_pair M Rs j)"
    by (rule find_expected [where field_match = field_match and req = req and base = base and M = M
          and st = st and j = j and N = N, OF none b f jN len(2) Cons.prems(3)])
  let ?st' = "st ++ map_or_empty (TransitionsState (Response (expected_pair M Rs j)))"
  have rest: "serve field_match (base @ map (expected_pair M Rs) [0..<N]) ?st' reqs =
      map (\<lambda>i. Some (expected_pair M Rs i)) [Suc j..<N]"
  proof (cases "reqs = []")
    case True
    then have "Suc j = N" using Cons.prems(2) by simp
    then show ?thesis using True by simp
  next
    case False
    then have "Suc j < N"
      using Cons.prems(2) by (cases reqs) simp_all
    then have "?st' ''sequence'' = Some (Itoa (int (Suc j) + 1))"
      using len(1) by (simp add: expected_pair_def map_or_empty_def ac_simps)
    then show ?thesis
      using Cons.prems by (intro Cons.IH) simp_all
  qed
  have "[j..<N] = j # [Suc j..<N]"
    using jN by (simp add: upt_conv_Cons)
  then show ?case
    by (simp add: Match_with_state_def found rest)
qed


lemma read_pair_Fields [simp]: "Fields (RequestMatcher (read_pair h p)) = Fields_mem p"
  by (simp add: read_pair_def)

text \<open>
  C2, as the code has it. Let the simulation hold no pair with the fields \<open>F\<close> in its
  request matcher, and let the state have a map. Let \<open>N \<ge> 2\<close> pairs with the fields \<open>F\<close>
  be inserted by \<open>AddPairInSequence\<close>, each handed over without a map of required state
  and without a map of transitions. Then the insertions return; the earlier pairs are left
  as they were and the \<open>N\<close> pairs follow in the order of insertion; read from the store,
  the pair at position \<open>i\<close> (from 1) requires \<open>sequence = i\<close>, each pair but the last
  moves \<open>sequence\<close> on to \<open>i + 1\<close>, and the last pair's response is as it was given;
  the map of the state gets \<open>sequence = 1\<close>, and no other map that was there before is
  changed. \<open>N\<close> requests that match the fields \<open>F\<close> and those of no earlier pair, served
  one after the other from the state the insertions left, are answered by the \<open>N\<close> pairs
  in the order of insertion.
\<close>

theorem AddPairInSequence_assigns_sequence:
  assumes fresh: "\<forall>s \<in> set (matchingPairs_mem this). Fields_mem s \<noteq> F"
    and st: "State state = Some st" "st < next_addr h"
    and nil: "\<forall>R \<in> set Rs. TransitionsState R = None"
    and len: "2 \<le> length Rs" "int (length Rs) + 1 < 2 ^ 63"
  shows "case AddPairsInSequence this state h (map (new_pair F) Rs) of
           Inl p \<Rightarrow> False
         | Inr (this', h') \<Rightarrow>
             ResponseDelays_mem this' = ResponseDelays_mem this
           \<and> take (length (matchingPairs_mem this)) (matchingPairs_mem this') = matchingPairs_mem this
           \<and> map (read_pair h') (drop (length (matchingPairs_mem this)) (matchingPairs_mem this')) =
               map (expected_pair \<lparr>Fields = F, RequiresState = None\<rparr> Rs) [0..<length Rs]
           \<and> cells h' st = (cells h st)(''sequence'' \<mapsto> ''1'')
           \<and> (\<forall>a<next_addr h. a \<noteq> st \<longrightarrow> cells h' a = cells h a)
           \<and> (length reqs = length Rs
                \<and> (\<forall>req \<in> set reqs. field_match F req
                      \<and> (\<forall>s \<in> set (matchingPairs_mem this). \<not> field_match (Fields_mem s) req)) \<longrightarrow>
              serve field_match (read_pairs h' this') (cells h' st) reqs =
                map (\<lambda>i. Some (expected_pair \<lparr>Fields = F, RequiresState = None\<rparr> Rs i)) [0..<length Rs])"
proof -
  let ?base = "matchingPairs_mem this"
  let ?n = "next_addr h"
  let ?N = "length Rs"
  let ?M = "\<lparr>Fields = F, RequiresState = None\<rparr> :: 'a RequestMatcher"
  obtain R0 R1 Rs' where Rs: "Rs = R0 # R1 # Rs'"
    using len(1) by (cases Rs; cases "tl Rs") auto
  let ?this1 = "this\<lparr>matchingPairs_mem := ?base @ [new_pair F (Rs ! 0)]\<rparr>"
  have first: "AddPairInSequence this (new_pair F (Rs ! 0)) state h = Inr (?this1, new_pair F (Rs ! 0), h)"
    by (rule AddPairInSequence_first [OF fresh])
  let ?this2 = "?this1\<lparr>matchingPairs_mem := ?base @ map (saved_pair ?n F Rs 2) [0..<2]\<rparr>"
  obtain h2 where second: "AddPairInSequence ?this1 (new_pair F (Rs ! 1)) state h =
        Inr (?this2, saved_pair ?n F Rs 2 1, h2)"
    and inv2: "sequence_heap ?n 2 h2"
    and st2: "cells h2 st = (cells h st)(''sequence'' \<mapsto> ''1'')"
    and frame2: "\<forall>a<?n. a \<noteq> st \<longrightarrow> cells h2 a = cells h a"
    using AddPairInSequence_second [OF fresh _ st, of ?this1 Rs] by auto
  let ?this' = "?this2\<lparr>matchingPairs_mem := ?base @ map (saved_pair ?n F Rs ?N) [0..<?N]\<rparr>"
  have "\<exists>h'. AddPairsInSequence ?this2 state h2 (map (new_pair F) (drop 2 Rs)) = Inr (?this', h')
          \<and> sequence_heap ?n ?N h' \<and> (\<forall>a<next_addr h2. cells h' a = cells h2 a)"
    by (rule AddPairsInSequence_more [OF fresh len(2) _ len(1) _ inv2]) simp_all
  then obtain h' where more: "AddPairsInSequence ?this2 state h2 (map (new_pair F) (drop 2 Rs)) = Inr (?this', h')"
    and inv: "sequence_heap ?n ?N h'"
    and frame': "\<forall>a<next_addr h2. cells h' a = cells h2 a"
    by blast
  have n2: "?n < next_addr h2"
    using inv2 by (simp add: sequence_heap_def)
  have all: "AddPairsInSequence this state h (map (new_pair F) Rs) = Inr (?this', h')"
    using more first second by (simp add: Rs)
  have st': "cells h' st = (cells h st)(''sequence'' \<mapsto> ''1'')"
    using frame' st(2) n2 st2 by simp
  have frame: "\<forall>a<?n. a \<noteq> st \<longrightarrow> cells h' a = cells h a"
    using frame' frame2 n2 by simp
  have read: "map (read_pair h') (map (saved_pair ?n F Rs ?N) [0..<?N]) = map (expected_pair ?M Rs) [0..<?N]"
    using nil by (simp add: read_saved_pair [OF inv])
  have serve: "serve field_match (read_pairs h' ?this') (cells h' st) reqs =
                map (\<lambda>i. Some (expected_pair ?M Rs i)) [0..<?N]"
    if a: "length reqs = ?N \<and> (\<forall>req \<in> set reqs. field_match F req
                      \<and> (\<forall>s \<in> set ?base. \<not> field_match (Fields_mem s) req))"
  proof -
    have pairs: "read_pairs h' ?this' = map (read_pair h') ?base @ map (expected_pair ?M Rs) [0..<?N]"
      using read by (simp add: read_pairs_def)
    have none: "map_or_empty (RequiresState ?M) = Map.empty"
      by (simp add: map_or_empty_def)
    have reqs: "\<forall>req \<in> set reqs. field_match (Fields ?M) req
                  \<and> (\<forall>s \<in> set (map (read_pair h') ?base). \<not> field_match (Fields (RequestMatcher s)) req)"
      using a by simp
    have j: "0 + length reqs = ?N"
      using a by simp
    have s1: "cells h' st ''sequence'' = Some (Itoa (int 0 + 1))"
      by (simp add: st' Itoa_1)
    show ?thesis
      unfolding pairs
      by (rule serve_expected [where field_match = field_match and base = "map (read_pair h') ?base" and M = ?M
            and Rs = Rs and N = ?N and reqs = reqs and j = 0 and st = "cells h' st",
            OF none refl len(2) reqs j s1])
  qed
  show ?thesis
    unfolding all
    using st' frame read serve by simp
qed

text \<open>
  Three insertions into a new simulation, and three requests served from what they left.
\<close>

theorem AddPairInSequence_witness:
  "case AddPairsInSequence \<lparr>matchingPairs_mem = [], ResponseDelays_mem = []\<rparr> \<lparr>State = Some 0\<rparr> example_heap
          [new_pair ''GET example.com/a'' (example_response ''first''),
           new_pair ''GET example.com/a'' (example_response ''second''),
           new_pair ''GET example.com/a'' (example_response ''third'')] of
     Inl p \<Rightarrow> False
   | Inr (this', h') \<Rightarrow>
       read_pairs h' this' =
          [\<lparr>RequestMatcher = \<lparr>Fields = ''GET example.com/a'', RequiresState = Some [''sequence'' \<mapsto> ''1'']\<rparr>,
            Response = (example_response ''first'')\<lparr>TransitionsState := Some [''sequence'' \<mapsto> ''2'']\<rparr>\<rparr>,
           \<lparr>RequestMatcher = \<lparr>Fields = ''GET example.com/a'', RequiresState = Some [''sequence'' \<mapsto> ''2'']\<rparr>,
            Response = (example_response ''second'')\<lparr>TransitionsState := Some [''sequence'' \<mapsto> ''3'']\<rparr>\<rparr>,
           \<lparr>RequestMatcher = \<lparr>Fields = ''GET example.com/a'', RequiresState = Some [''sequence'' \<mapsto> ''3'']\<rparr>,
            Response = example_response ''third''\<rparr>]
     \<and> cells h' 0 = [''sequence'' \<mapsto> ''1'']
     \<and> serve (=) (read_pairs h' this') (cells h' 0)
          [''GET example.com/a'', ''GET example.com/a'', ''GET example.com/a''] =
        [Some \<lparr>RequestMatcher = \<lparr>Fields = ''GET example.com/a'', RequiresState = Some [''sequence'' \<mapsto> ''1'']\<rparr>,
            Response = (example_response ''first'')\<lparr>TransitionsState := Some [''sequence'' \<mapsto> ''2'']\<rparr>\<rparr>,
         Some \<lparr>RequestMatcher = \<lparr>Fields = ''GET example.com/a'', RequiresState = Some [''sequence'' \<mapsto> ''2'']\<rparr>,
            Response = (example_response ''second'')\<lparr>TransitionsState := Some [''sequence'' \<mapsto> ''3'']\<rparr>\<rparr>,
         Some \<lparr>RequestMatcher = \<lparr>Fields = ''GET example.com/a'', RequiresState = Some [''sequence'' \<mapsto> ''3'']\<rparr>,
            Response = example_response ''third''\<rparr>]"
  using AddPairInSequence_assigns_sequence
    [where this = "\<lparr>matchingPairs_mem = [], ResponseDelays_mem = []\<rparr> :: string Simulation_mem"
       and F = "''GET example.com/a''" and state = "\<lparr>State = Some 0\<rparr>" and st = 0 and h = example_heap
       and Rs = "[example_response ''first'', example_response ''second'', example_response ''third'']"
       and field_match = "(=)"
       and reqs = "[''GET example.com/a'', ''GET example.com/a'', ''GET example.com/a'']"]
  by (auto simp: example_heap_def example_response_def expected_pair_def map_or_empty_def read_pairs_def
      upt_rec Itoa_1 Itoa_2 Itoa_3 split: sum.splits)

text \<open>
  The sequence as the specification words it fails for one insertion (the pair gets no
  sequence value at all) and for two (the second pair has no transition to 3).
\<close>

theorem AddPairInSequence_counterexample:
  "\<not> (case AddPairsInSequence \<lparr>matchingPairs_mem = [], ResponseDelays_mem = []\<rparr> \<lparr>State = Some 0\<rparr> example_heap
          [new_pair ''GET example.com/a'' (example_response ''first'')] of
        Inl p \<Rightarrow> False
      | Inr (this, h) \<Rightarrow> claimed_sequence (read_pairs h this))
   \<and> \<not> (case AddPairsInSequence \<lparr>matchingPairs_mem = [], ResponseDelays_mem = []\<rparr> \<lparr>State = Some 0\<rparr> example_heap
          [new_pair ''GET example.com/a'' (example_response ''first''),
           new_pair ''GET example.com/a'' (example_response ''second'')] of
        Inl p \<Rightarrow> False
      | Inr (this, h) \<Rightarrow> claimed_sequence (read_pairs h this))"
proof -
  have one: "AddPairsInSequence \<lparr>matchingPairs_mem = [], ResponseDelays_mem = []\<rparr> \<lparr>State = Some 0\<rparr> example_heap
          [new_pair ''GET example.com/a'' (example_response ''first'')] =
      Inr (\<lparr>matchingPairs_mem = [new_pair ''GET example.com/a'' (example_response ''first'')],
            ResponseDelays_mem = []\<rparr>, example_heap)"
    by (simp add: AddPairInSequence_def apply_updates_def)
  have two: "AddPairsInSequence \<lparr>matchingPairs_mem = [], ResponseDelays_mem = []\<rparr> \<lparr>State = Some 0\<rparr> example_heap
          [new_pair ''GET example.com/a'' (example_response ''first''),
           new_pair ''GET example.com/a'' (example_response ''second'')] =
      Inr (\<lparr>matchingPairs_mem =
             [\<lparr>Fields_mem = ''GET example.com/a'', RequiresState_mem = Some 1,
               Response_mem = example_response ''first'', TransitionsState_mem = Some 2\<rparr>,
              \<lparr>Fields_mem = ''GET example.com/a'', RequiresState_mem = Some 3,
               Response_mem = example_response ''second'', TransitionsState_mem = None\<rparr>],
            ResponseDelays_mem = []\<rparr>,
           \<lparr>cells = (\<lambda>a. Map.empty)
              (0 := [''sequence'' \<mapsto> ''1''], 1 := [''sequence'' \<mapsto> ''1''],
               2 := [''sequence'' \<mapsto> ''2''], 3 := [''sequence'' \<mapsto> ''2'']),
            next_addr = 4\<rparr>)"
    by (simp add: AddPairInSequence_def AddPairInSequence_body_def apply_updates_def new_pair_def
        example_heap_def map_or_make_def make_map_def map_assign_def map_index_def Let_def Itoa_2
        numeral_2_eq_2 numeral_3_eq_3 eval_nat_numeral)
  have i1: "Itoa 1 \<noteq> []" "Itoa 2 \<noteq> []" "Itoa 3 \<noteq> []"
    by (simp_all add: Itoa_nonempty)
  show ?thesis
    unfolding one two
    using i1
    by (simp add: claimed_sequence_def read_pairs_def read_pair_def new_pair_def example_response_def
        map_or_empty_def map_index_def)
qed

text \<open>
  Two pairs that are handed over with one and the same map of required state,
  \<open>{"foo": "bar"}\<close> at address 1: the writes of the second insertion go through the one
  map, and both pairs end up requiring \<open>sequence = 2\<close>.
\<close>

lemma AddPairInSequence_shared_map:
  "case AddPairsInSequence \<lparr>matchingPairs_mem = [], ResponseDelays_mem = []\<rparr> \<lparr>State = Some 0\<rparr>
          \<lparr>cells = (\<lambda>a. Map.empty)(1 := [''foo'' \<mapsto> ''bar'']), next_addr = 2\<rparr>
          [\<lparr>Fields_mem = ''GET example.com/a'', RequiresState_mem = Some 1,
            Response_mem = example_response ''first'', TransitionsState_mem = None\<rparr>,
           \<lparr>Fields_mem = ''GET example.com/a'', RequiresState_mem = Some 1,
            Response_mem = example_response ''second'', TransitionsState_mem = None\<rparr>] of
     Inl p \<Rightarrow> False
   | Inr (this, h) \<Rightarrow>
       map (\<lambda>q. RequiresState (RequestMatcher q)) (read_pairs h this) =
         [Some [''foo'' \<mapsto> ''bar'', ''sequence'' \<mapsto> ''2''], Some [''foo'' \<mapsto> ''bar'', ''sequence'' \<mapsto> ''2'']]"
  by (simp add: AddPairInSequence_def AddPairInSequence_body_def apply_updates_def
      map_or_make_def make_map_def map_assign_def map_index_def Let_def Itoa_2
      read_pairs_def read_pair_def)


subsection \<open>AddPair\<close>

lemma AddPair_duplicate_iff:
  "AddPair_duplicate pair saved \<longleftrightarrow> RequestMatcher pair \<in> RequestMatcher ` set saved"
  by (induction saved) auto

lemma AddPair_distinct:
  "distinct (map RequestMatcher (matchingPairs this)) \<Longrightarrow>
   distinct (map RequestMatcher (matchingPairs (AddPair this pair)))"
  by (simp add: AddPair_def AddPair_duplicate_iff)

lemma AddPair_foldl_distinct:
  "distinct (map RequestMatcher (matchingPairs this)) \<Longrightarrow>
   distinct (map RequestMatcher (matchingPairs (foldl AddPair this pairs)))"
  by (induction pairs arbitrary: this) (simp_all add: AddPair_distinct)

text \<open>
  C3. \<open>AddPair S P\<close> leaves \<open>S\<close> as it is when a saved pair's request matcher equals
  that of \<open>P\<close>, and appends \<open>P\<close> at the end otherwise. Hence a run of \<open>AddPair\<close> calls
  keeps the request matchers of a simulation pairwise different, and a simulation built from
  a new one by \<open>AddPair\<close> calls alone has no two pairs with the same request matcher.
\<close>

theorem AddPair_skips_duplicates:
  "AddPair S P =
     (if \<exists>savedPair \<in> set (matchingPairs S). RequestMatcher savedPair = RequestMatcher P
      then S else S\<lparr>matchingPairs := matchingPairs S @ [P]\<rparr>)
   \<and> (distinct (map RequestMatcher (matchingPairs S)) \<longrightarrow>
        distinct (map RequestMatcher (matchingPairs (foldl AddPair S Ps))))
   \<and> distinct (map RequestMatcher (matchingPairs (foldl AddPair NewSimulation Ps)))"
proof -
  have "distinct (map RequestMatcher (matchingPairs (foldl AddPair NewSimulation Ps)))"
    by (rule AddPair_foldl_distinct) (simp add: NewSimulation_def)
  moreover have "(\<exists>savedPair \<in> set (matchingPairs S). RequestMatcher savedPair = RequestMatcher P)
      = AddPair_duplicate P (matchingPairs S)"
    unfolding AddPair_duplicate_iff image_iff by metis
  ultimately show ?thesis
    by (simp add: AddPair_def AddPair_foldl_distinct)
qed

text \<open>A duplicate is skipped, another pair is appended, and the matchers stay distinct.\<close>

theorem AddPair_skips_duplicates_witness:
  "AddPair (AddPair NewSimulation (example_pair ''GET example.com/a'' ''first''))
      (example_pair ''GET example.com/a'' ''second'') =
     \<lparr>matchingPairs = [example_pair ''GET example.com/a'' ''first''], ResponseDelays = []\<rparr>
   \<and> AddPair (AddPair NewSimulation (example_pair ''GET example.com/a'' ''first''))
      (example_pair ''GET example.com/b'' ''second'') =
     \<lparr>matchingPairs = [example_pair ''GET example.com/a'' ''first'', example_pair ''GET example.com/b'' ''second''],
      ResponseDelays = []\<rparr>
   \<and> distinct (map RequestMatcher (matchingPairs (foldl AddPair
        \<lparr>matchingPairs = [example_pair ''GET example.com/a'' ''first''], ResponseDelays = []\<rparr>
        [example_pair ''GET example.com/a'' ''second'', example_pair ''GET example.com/b'' ''third''])))"
  using AddPair_skips_duplicates
    [of "AddPair NewSimulation (example_pair ''GET example.com/a'' ''first'')"
        "example_pair ''GET example.com/a'' ''second''"
        "[example_pair ''GET example.com/a'' ''second'', example_pair ''GET example.com/b'' ''third'']"]
    AddPair_skips_duplicates
    [of "AddPair NewSimulation (example_pair ''GET example.com/a'' ''first'')"
        "example_pair ''GET example.com/b'' ''second''" "[]"]
  by (simp add: NewSimulation_def AddPair_def example_pair_def)

subsection \<open>GetResponse\<close>

lemma GetResponse_hit:
  "RequestCache hf requestDetails = Some r \<Longrightarrow> GetResponse Match hf requestDetails = (Inr r, hf)"
  by (simp add: GetResponse_def CacheMatcher_GetResponse_def)

text \<open>
  C1, as the code has it. For every request that misses the cache and for which the matcher
  returns an error, \<open>GetResponse\<close> returns no response but a matching error with status
  code 412 and the description \<open>Could not find recorded request, please record it first!\<close>,
  and leaves the instance as it was.
\<close>

theorem GetResponse_miss:
  assumes "RequestCache hf requestDetails = None"
    and "Match requestDetails (Webserver (Cfg hf)) (Simulation hf) = Inl err"
  shows "GetResponse Match hf requestDetails =
     (Inl \<lparr>StatusCode = 412,
           Description = ''Could not find recorded request, please record it first!''\<rparr>, hf)"
  using assms by (simp add: GetResponse_def CacheMatcher_GetResponse_def)

text \<open>A request for \<open>/b\<close> against an instance with an empty cache and a matcher that finds nothing.\<close>

theorem GetResponse_miss_witness:
  "GetResponse (\<lambda>req webserver simulation. Inl ''No match found'') (example_hoverfly Simulate)
      ''GET http://example.com/b'' =
     (Inl \<lparr>StatusCode = 412,
           Description = ''Could not find recorded request, please record it first!''\<rparr>,
      example_hoverfly Simulate)"
  using GetResponse_miss
    [of "example_hoverfly Simulate" "''GET http://example.com/b''"
        "\<lambda>req webserver simulation. Inl ''No match found''" "''No match found''"]
  by (simp add: example_hoverfly_def)

text \<open>
  On that input the result is neither a 502 nor a text containing \<open>Could not find a match\<close>.
\<close>

theorem GetResponse_miss_counterexample:
  "\<not> claimed_miss_result
       (fst (GetResponse (\<lambda>req webserver simulation. Inl ''No match found'') (example_hoverfly Simulate)
          ''GET http://example.com/b''))"
  by (simp add: GetResponse_def CacheMatcher_GetResponse_def example_hoverfly_def claimed_miss_result_def)

subsection \<open>GetDefaultHoverflyHTTPClient\<close>

text \<open>
  C5. Without an upstream proxy the client is built for either value of the flag, and its
  \<open>CheckRedirect\<close> returns \<open>ErrUseLastResponse\<close> for every request. The flag is stored as
  \<open>InsecureSkipVerify\<close> as it is: with TLS verification enabled the client does not verify
  upstream certificates, and with TLS verification disabled it does. An instance made by
  \<open>NewHoverflyWithConfiguration\<close> gets the client built from the flag of its configuration.
\<close>

theorem GetDefaultHoverflyHTTPClient_inverts_flag:
  "(\<exists>c. GetDefaultHoverflyHTTPClient url_Parse True '''' = Inr c
        \<and> \<not> verifies_upstream_certificates c \<and> CheckRedirect c req via = ErrUseLastResponse)
   \<and> (\<exists>c. GetDefaultHoverflyHTTPClient url_Parse False '''' = Inr c
        \<and> verifies_upstream_certificates c \<and> CheckRedirect c req via = ErrUseLastResponse)
   \<and> (\<exists>hf. (NewHoverflyWithConfiguration url_Parse (example_configuration Capture)
              :: string + (string, string) Hoverfly) = Inr hf
        \<and> \<not> verifies_upstream_certificates (HTTP hf))"
  by (simp add: GetDefaultHoverflyHTTPClient_def verifies_upstream_certificates_def
      NewHoverflyWithConfiguration_def example_configuration_def)

subsection \<open>DoRequest\<close>


lemma canonical_Hoverfly: "CanonicalMIMEHeaderKey ''Hoverfly'' = ''Hoverfly''"
  by code_simp



subsection \<open>processRequest\<close>

text \<open>
  C7. Let the request be interpreted and the active mode be in the mode map, and let its
  \<open>Process\<close> return a response, an optional error and the instance. In Capture mode
  \<open>processRequest\<close> returns that response without any sleep, whatever the delay rules are.
  In every other mode, when \<open>Process\<close> returned no error, it returns that response after
  the sleep of the first delay rule that matches the request, and without a sleep when no
  rule matches. A request that cannot be interpreted is answered with the error response,
  without a sleep.
\<close>

theorem processRequest_delays:
  "(NewRequestDetailsFromHttpRequest req = Inr requestDetails \<and> modeMap (Mode (Cfg hf)) = Some Process
      \<and> Process hf req requestDetails = ((response, err), hf') \<longrightarrow>
      (Mode (Cfg hf) = Capture \<longrightarrow>
         processRequest NewRequestDetailsFromHttpRequest ErrorResponse modeMap matches hf req =
           Inr (response, [], hf'))
      \<and> (Mode (Cfg hf) \<noteq> Capture \<and> err = None \<longrightarrow>
         processRequest NewRequestDetailsFromHttpRequest ErrorResponse modeMap matches hf req =
           Inr (response,
                (case find (\<lambda>d. matches d requestDetails) (Hoverfly_ResponseDelays hf') of
                   None \<Rightarrow> [] | Some d \<Rightarrow> [Delay d]),
                hf')))
   \<and> (NewRequestDetailsFromHttpRequest req = Inl e \<longrightarrow>
        processRequest NewRequestDetailsFromHttpRequest ErrorResponse modeMap matches hf req =
          Inr (ErrorResponse req e ''Could not interpret HTTP request'', [], hf))"
  by (auto simp: processRequest_def Let_def GetDelay_def split: option.splits)

text \<open>
  The same instance, with a rule of 250 ms matching the request, in Capture and in Simulate.
\<close>

theorem processRequest_delays_witness:
  "processRequest (\<lambda>r. Inr ''GET http://example.com/slow'') (\<lambda>r e m. example_http_response 502 m)
       [Capture \<mapsto> (\<lambda>h r d. ((example_http_response 201 ''hi'', None), h)),
        Simulate \<mapsto> (\<lambda>h r d. ((example_http_response 200 ''ok'', None), h))]
       (\<lambda>d r. Contains r (UrlPattern d)) (example_hoverfly Capture) example_request =
     Inr (example_http_response 201 ''hi'', [], example_hoverfly Capture)
   \<and> processRequest (\<lambda>r. Inr ''GET http://example.com/slow'') (\<lambda>r e m. example_http_response 502 m)
       [Capture \<mapsto> (\<lambda>h r d. ((example_http_response 201 ''hi'', None), h)),
        Simulate \<mapsto> (\<lambda>h r d. ((example_http_response 200 ''ok'', None), h))]
       (\<lambda>d r. Contains r (UrlPattern d)) (example_hoverfly Simulate) example_request =
     Inr (example_http_response 200 ''ok'', [250], example_hoverfly Simulate)"
  using processRequest_delays
    [of "\<lambda>r. Inr ''GET http://example.com/slow''" example_request "''GET http://example.com/slow''"
        "[Capture \<mapsto> (\<lambda>h r d. ((example_http_response 201 ''hi'', None), h)),
          Simulate \<mapsto> (\<lambda>h r d. ((example_http_response 200 ''ok'', None), h))]"
        "example_hoverfly Capture" "\<lambda>h r d. ((example_http_response 201 ''hi'', None), h)"
        "example_http_response 201 ''hi''" None "example_hoverfly Capture"
        "\<lambda>r e m. example_http_response 502 m" "\<lambda>d r. Contains r (UrlPattern d)"]
    processRequest_delays
    [of "\<lambda>r. Inr ''GET http://example.com/slow''" example_request "''GET http://example.com/slow''"
        "[Capture \<mapsto> (\<lambda>h r d. ((example_http_response 201 ''hi'', None), h)),
          Simulate \<mapsto> (\<lambda>h r d. ((example_http_response 200 ''ok'', None), h))]"
        "example_hoverfly Simulate" "\<lambda>h r d. ((example_http_response 200 ''ok'', None), h)"
        "example_http_response 200 ''ok''" None "example_hoverfly Simulate"
        "\<lambda>r e m. example_http_response 502 m" "\<lambda>d r. Contains r (UrlPattern d)"]
  by (simp add: example_hoverfly_def example_configuration_def Capture_def Simulate_def)

subsection \<open>GetPayload\<close>

text \<open>
  C8. The stored template asks for the header \<open>content-type\<close>. A request that carries the
  header under exactly that name gets the template's response; the same request with the
  header under the name \<open>Content-Type\<close>, which is the canonical form of the name and the
  one under which \<open>net/http\<close> stores a header read off the wire, gets \<open>No match found\<close>.
\<close>

theorem GetPayload_header_name_case:
  "GetPayload [example_template] (example_header_request ''content-type'') =
     Inr (Inr \<lparr>Payload_Response = example_response ''ok''\<rparr>)
   \<and> GetPayload [example_template] (example_header_request ''Content-Type'') =
     Inr (Inl ''No match found'')
   \<and> CanonicalMIMEHeaderKey ''content-type'' = ''Content-Type''"
proof -
  have "CanonicalMIMEHeaderKey ''content-type'' = ''Content-Type''"
    by code_simp
  then show ?thesis
    by (simp add: example_template_def example_header_request_def)
qed

subsection \<open>Schema negotiation\<close>

lemma HasPrefix_append: "HasPrefix (b @ c) b"
  by (induction b) simp_all

lemma Contains_HasPrefix: "HasPrefix s sub \<Longrightarrow> Contains s sub"
  by (cases s; cases sub) simp_all

lemma Contains_append: "Contains s sub \<Longrightarrow> Contains (a @ s) sub"
  by (induction a) simp_all

lemma Contains_middle: "Contains (a @ b @ c) b"
  by (simp add: Contains_append Contains_HasPrefix HasPrefix_append)

lemma unsupported_contains:
  "Contains (unsupported_schema_version X) (unsupported_fragment X)"
proof -
  have "unsupported_schema_version X =
      ''Invalid simulation: '' @ unsupported_fragment X
        @ '' of Hoverfly, you may need to update Hoverfly''"
    by (simp add: unsupported_schema_version_def unsupported_fragment_def)
  then show ?thesis
    by (simp only: Contains_middle)
qed

text \<open>
  C4, as the tests of the repository have it. An import whose body has no \<open>meta\<close> object is
  rejected with \<open>Invalid JSON, missing "meta" object\<close>; one whose \<open>meta\<close> object has no
  \<open>schemaVersion\<close> string is rejected with \<open>Invalid JSON, missing "meta.schemaVersion" string\<close>;
  one whose schema version \<open>X\<close> is none of \<open>v1\<close>, \<open>v2\<close>, \<open>v3\<close> is rejected with a message
  that contains \<open>schema version X is not supported by this version\<close>.
\<close>

theorem schema_negotiation_rejects:
  "(\<not> has_meta members \<longrightarrow>
      NewSimulationViewFromResponseBody_schema (Some (JObject members)) = Inl missing_meta_object)
   \<and> (has_meta members \<and> schema_version_of members = None \<longrightarrow>
      NewSimulationViewFromResponseBody_schema (Some (JObject members)) = Inl missing_schema_version)
   \<and> (schema_version_of members = Some X \<and> X \<noteq> ''v1'' \<and> X \<noteq> ''v2'' \<and> X \<noteq> ''v3'' \<longrightarrow>
      NewSimulationViewFromResponseBody_schema (Some (JObject members)) = Inl (unsupported_schema_version X)
      \<and> Contains (unsupported_schema_version X) (unsupported_fragment X))"
  by (auto simp: NewSimulationViewFromResponseBody_schema_def has_meta_def schema_version_of_def
      unsupported_contains split: option.splits json.splits)

text \<open>The bodies of the three tests: no \<open>meta\<close>, no schema version, and the version \<open>r3\<close>.\<close>

theorem schema_negotiation_rejects_witness:
  "NewSimulationViewFromResponseBody_schema (Some (JObject [(''data'', JObject [])])) =
     Inl missing_meta_object
   \<and> NewSimulationViewFromResponseBody_schema
       (Some (JObject [(''data'', JObject []),
                       (''meta'', JObject [(''hoverflyVersion'', JString ''v0.11.0''),
                                           (''timeExported'', JString ''2017-02-23T12:43:48Z'')])])) =
     Inl missing_schema_version
   \<and> NewSimulationViewFromResponseBody_schema
       (Some (JObject [(''data'', JObject [(''pairs'', JArray [JObject []])]),
                       (''meta'', JObject [(''schemaVersion'', JString ''r3''),
                                           (''hoverflyVersion'', JString ''v0.11.0''),
                                           (''timeExported'', JString ''2017-02-23T12:43:48Z'')])])) =
     Inl ''Invalid simulation: schema version r3 is not supported by this version of Hoverfly, you may need to update Hoverfly''
   \<and> Contains
       ''Invalid simulation: schema version r3 is not supported by this version of Hoverfly, you may need to update Hoverfly''
       ''schema version r3 is not supported by this version''"
  using schema_negotiation_rejects [of "[(''data'', JObject [])]" "''r3''"]
    schema_negotiation_rejects
      [of "[(''data'', JObject []),
            (''meta'', JObject [(''hoverflyVersion'', JString ''v0.11.0''),
                                (''timeExported'', JString ''2017-02-23T12:43:48Z'')])]" "''r3''"]
    schema_negotiation_rejects
      [of "[(''data'', JObject [(''pairs'', JArray [JObject []])]),
            (''meta'', JObject [(''schemaVersion'', JString ''r3''),
                                (''hoverflyVersion'', JString ''v0.11.0''),
                                (''timeExported'', JString ''2017-02-23T12:43:48Z'')])]" "''r3''"]
  by (simp add: has_meta_def schema_version_of_def json_member_def unsupported_schema_version_def
      unsupported_fragment_def)

text \<open>
  A body without \<open>meta\<close> is not rejected with the message for a missing schema version.
\<close>

theorem schema_negotiation_counterexample:
  "NewSimulationViewFromResponseBody_schema (Some (JObject [(''data'', JObject [])])) \<noteq>
     Inl missing_schema_version"
  by (simp add: NewSimulationViewFromResponseBody_schema_def json_member_def missing_meta_object_def
      missing_schema_version_def quoted_def)

subsection \<open>Remote middleware\<close>

text \<open>
  C9. For every payload: when the exchange with the remote middleware fails, when it
  answers with a status other than 200, and when it answers 200 with a body that does not
  parse, \<open>ExecuteMiddlewareRemotely\<close> returns the payload it was given together with an
  error.
\<close>

theorem ExecuteMiddlewareRemotely_failure:
  "(post url (encode payload) = Inl err \<longrightarrow>
      (\<exists>e. ExecuteMiddlewareRemotely post encode decode url payload = (payload, Some e)))
   \<and> (post url (encode payload) = Inr (status, body) \<and> status \<noteq> 200 \<longrightarrow>
      (\<exists>e. ExecuteMiddlewareRemotely post encode decode url payload = (payload, Some e)))
   \<and> (post url (encode payload) = Inr (200, body) \<and> decode body = Inl parseError \<longrightarrow>
      (\<exists>e. ExecuteMiddlewareRemotely post encode decode url payload = (payload, Some e)))"
  by (simp add: ExecuteMiddlewareRemotely_def)

text \<open>
  The two tests: a server that answers 404, and one that answers 200 with an empty body.
\<close>

theorem ExecuteMiddlewareRemotely_failure_witness:
  "ExecuteMiddlewareRemotely (\<lambda>u b. Inr (404, '''')) Body (\<lambda>b. Inr (example_response b))
       ''http://localhost/process'' (example_response ''Normal body'') =
     (example_response ''Normal body'', Some ''Error when communicating with remote middleware'')
   \<and> ExecuteMiddlewareRemotely (\<lambda>u b. Inr (200, ''''))  Body
       (\<lambda>b. if b = '''' then Inl ''unexpected end of JSON input'' else Inr (example_response b))
       ''http://localhost/process'' (example_response ''Normal body'') =
     (example_response ''Normal body'', Some ''unexpected end of JSON input'')
   \<and> ExecuteMiddlewareRemotely (\<lambda>u b. Inl ''connection refused'') Body (\<lambda>b. Inr (example_response b))
       ''http://localhost/process'' (example_response ''Normal body'') =
     (example_response ''Normal body'', Some ''Error when communicating with remote middleware'')"
  using ExecuteMiddlewareRemotely_failure
      [where post = "\<lambda>u b. Inr (404, '''')" and url = "''http://localhost/process''" and encode = Body
         and payload = "example_response ''Normal body''" and status = 404 and body = "''''"
         and decode = "\<lambda>b. Inr (example_response b)"]
    ExecuteMiddlewareRemotely_failure
      [where post = "\<lambda>u b. Inr (200, '''')" and url = "''http://localhost/process''" and encode = Body
         and payload = "example_response ''Normal body''" and body = "''''"
         and decode = "\<lambda>b. if b = '''' then Inl ''unexpected end of JSON input'' else Inr (example_response b)"
         and parseError = "''unexpected end of JSON input''"]
    ExecuteMiddlewareRemotely_failure
      [where post = "\<lambda>u b. Inl ''connection refused''" and url = "''http://localhost/process''"
         and encode = Body and payload = "example_response ''Normal body''"
         and err = "''connection refused''" and decode = "\<lambda>b. Inr (example_response b)"]
  by (simp add: ExecuteMiddlewareRemotely_def)

end
